theory Spec2Isabelle
  imports Main
begin

section \<open>The sheet-list page (static/index.js)\<close>

subsection \<open>Data\<close>

text \<open>
  The values handed to \<^verbatim>\<open>JSON.stringify\<close> as request bodies: objects with a boolean or a
  string member. A request records the value that is serialised.
\<close>

datatype json = JBool bool | JString string | JObject "(string \<times> json) list"

text \<open>
  Modelled from the spec: the row template is rendered by the server and is not part of
  the scripts. A row (\<^verbatim>\<open>tr\<close>) carries the spreadsheet identifier as the attribute
  \<^verbatim>\<open>ssheet-id\<close>, one sub-element of class \<^verbatim>\<open>sheet-title\<close> and one of class
  \<^verbatim>\<open>utc-datetime\<close>, of which the scripts read and write the text, and the three
  controls \<^verbatim>\<open>visit-sheet\<close>, \<^verbatim>\<open>sync-sheet\<close>, \<^verbatim>\<open>delete-sheet\<close>. For each control
  the model counts the click handlers bound to it (jQuery's \<^verbatim>\<open>click(h)\<close> adds one).
\<close>

record row_markup =
  ssheet_id :: string
  sheet_title :: string
  utc_datetime :: string

record row = row_markup +
  visit_sheet :: nat
  sync_sheet :: nat
  delete_sheet :: nat

text \<open>
  The success payloads (spec, external interfaces): create answers with the markup of
  the row to insert, which jQuery parses into its top-level elements; sync answers with
  a timestamp and, optionally, a title. The payload of delete is ignored by the script.
\<close>

record create_data =
  row_to_insert :: "row_markup list"

record sync_data =
  datetime :: string
  title :: "string option"

text \<open>
  A request is the settings object given to \<^verbatim>\<open>$.ajax\<close>. Its two callbacks are
  closures; those of sync and delete capture the row that was clicked. A member the
  script leaves out is \<open>None\<close>.
\<close>

datatype callbacks = CreateCallbacks | SyncCallbacks nat | DeleteCallbacks nat

record ajax =
  type :: string
  url :: string
  data :: "json option"
  contentType :: "string option"
  dataType :: "string option"
  success_error :: "callbacks option"

text \<open>
  The page. Row elements live in \<open>heap\<close>; the position of a row there is its identity,
  so that a callback still holds its row after the row has left the table. \<open>table\<close>
  lists the children of \<^verbatim>\<open>#sheets-table tbody\<close> in document order. The two banners
  are the visibility of \<^verbatim>\<open>#notification-add\<close> and \<^verbatim>\<open>#notification-edit-sync\<close>;
  \<^verbatim>\<open>show()\<close> sets it and \<^verbatim>\<open>hide()\<close> clears it. \<open>create_sheet_button\<close> counts the
  click handlers of \<^verbatim>\<open>#create-sheet-button\<close>. The remaining fields record what the
  scripts do to the outside: requests sent, alerts raised, reloads forced, windows
  opened. The three URLs are the globals injected by the page. A handler or a callback
  of a row is a closure over an element that exists; for a position where the heap has
  no row the model changes nothing.
\<close>

record page =
  url_create :: string
  url_sync :: string
  url_delete :: string
  heap :: "row list"
  table :: "nat list"
  notification_add :: bool
  notification_edit_sync :: bool
  create_sheet_button :: nat
  requests :: "ajax list"
  alerts :: "string list"
  reloads :: nat
  opened :: "(string \<times> string) list"

text \<open>
  The two calls into moment.js are parameters of the model: \<open>moment_utc_toDate s f\<close>
  stands for \<^verbatim>\<open>moment.utc(s, f).toDate()\<close> and \<open>moment_format d f\<close> for
  \<^verbatim>\<open>moment(d).format(f)\<close>; \<open>'d\<close> is the type of dates.
\<close>

record 'd moment =
  moment_utc_toDate :: "string \<Rightarrow> string \<Rightarrow> 'd"
  moment_format :: "'d \<Rightarrow> string \<Rightarrow> string"

subsection \<open>Timestamps\<close>

text \<open>
  \<^verbatim>\<open>
  function convertToLocalDateTime(old_s) {
    var format = 'MM-DD-YYYY HH:mm'
    var date = moment.utc(old_s, format).toDate()
    var new_s = moment(date).format(format)
    return new_s
  }
  \<close>
\<close>

definition convertToLocalDateTime :: "'d moment \<Rightarrow> string \<Rightarrow> string" where
  "convertToLocalDateTime lib old_s =
     (let format = ''MM-DD-YYYY HH:mm'';
          date = moment_utc_toDate lib old_s format;
          new_s = moment_format lib date format
      in new_s)"

definition updateDateTimes :: "'d moment \<Rightarrow> nat \<Rightarrow> string \<Rightarrow> string" where
  "updateDateTimes lib index datetime_string = convertToLocalDateTime lib datetime_string"

subsection \<open>Error mapping\<close>

text \<open>
  \<^verbatim>\<open>
  function informUserOfSheetAccessError(statusCode) {
    if (statusCode == 401) {
      location.reload(true)
    } else {
      var message = "Could not perform operation.";
      if (statusCode == 403) {
        message = "You are not authorized to modify this sheet."
      } else if (statusCode == 404) {
        message = "Sheet was not found."
      } else if (statusCode == 400) {
        message = "Sheet formatted incorrectly. Make sure there are no blank rows and the first row is a header."
      }
      alert(message)
    }
  }
  \<close>
  The status code is the number \<^verbatim>\<open>xhr.status\<close>. A reload is recorded; the page that
  the reload serves is a new page.
\<close>

definition informUserOfSheetAccessError :: "nat \<Rightarrow> page \<Rightarrow> page" where
  "informUserOfSheetAccessError statusCode s =
     (if statusCode = 401 then s\<lparr>reloads := Suc (reloads s)\<rparr>
      else
        let message = ''Could not perform operation.'';
            message =
              (if statusCode = 403 then ''You are not authorized to modify this sheet.''
               else if statusCode = 404 then ''Sheet was not found.''
               else if statusCode = 400 then
                 ''Sheet formatted incorrectly. Make sure there are no blank rows and the first row is a header.''
               else message)
        in s\<lparr>alerts := alerts s @ [message]\<rparr>)"

subsection \<open>Banners\<close>

text \<open>
  \<^verbatim>\<open>
  function processNotificationsOnLoadOnDelete() {
    var rowCount = $('#sheets-table > tbody > tr').length;
    if (rowCount == 0) {
      $("#notification-add").show();
    }
  }

  function processNotificationsOnCreate() {
    var rowCount = $('#sheets-table > tbody > tr').length;
    if (rowCount == 1) {
      $("#notification-edit-sync").show();
    } else {
      $("#notification-edit-sync").hide();
    }
    $("#notification-add").hide();
  }

  function processNotificationsOnSync() {
    $("#notification-edit-sync").hide();
  }
  \<close>
\<close>

definition rowCount :: "page \<Rightarrow> nat" where
  "rowCount s = length (table s)"

definition processNotificationsOnLoadOnDelete :: "page \<Rightarrow> page" where
  "processNotificationsOnLoadOnDelete s =
     (if rowCount s = 0 then s\<lparr>notification_add := True\<rparr> else s)"

definition processNotificationsOnCreate :: "page \<Rightarrow> page" where
  "processNotificationsOnCreate s =
     (let s1 = (if rowCount s = 1 then s\<lparr>notification_edit_sync := True\<rparr>
                else s\<lparr>notification_edit_sync := False\<rparr>)
      in s1\<lparr>notification_add := False\<rparr>)"

definition processNotificationsOnSync :: "page \<Rightarrow> page" where
  "processNotificationsOnSync s = s\<lparr>notification_edit_sync := False\<rparr>"

subsection \<open>Rows\<close>

text \<open>
  \<open>each_row els f h\<close> applies \<open>f\<close> to the rows of \<open>h\<close> whose identity is in \<open>els\<close>: what
  a jQuery call does to the elements it has selected. \<open>text_utc_datetime f\<close> is
  \<^verbatim>\<open>find('.utc-datetime').text(f)\<close> on one row, where \<open>f\<close> is given the old text.
\<close>

definition each_row :: "nat list \<Rightarrow> (row \<Rightarrow> row) \<Rightarrow> row list \<Rightarrow> row list" where
  "each_row els f h = map (\<lambda>(i, r). if i \<in> set els then f r else r) (enumerate 0 h)"

definition text_utc_datetime :: "(string \<Rightarrow> string) \<Rightarrow> row \<Rightarrow> row" where
  "text_utc_datetime f r = r\<lparr>utc_datetime := f (utc_datetime r)\<rparr>"

text \<open>
  \<^verbatim>\<open>
  function wireRowClickHandlers(el) {
    $(el).find(".visit-sheet").click(visitSheetOnClick);
    $(el).find(".sync-sheet").click(syncSheetOnClick);
    $(el).find(".delete-sheet").click(deleteSheetOnClick);
  }
  \<close>
  In the model \<open>el\<close> is the list of the rows below the element that the source passes:
  the rows of the table for the document, the new rows for the markup just parsed.
\<close>

definition click_handlers :: "row \<Rightarrow> row" where
  "click_handlers r =
     r\<lparr>visit_sheet := Suc (visit_sheet r),
       sync_sheet := Suc (sync_sheet r),
       delete_sheet := Suc (delete_sheet r)\<rparr>"

definition wireRowClickHandlers :: "nat list \<Rightarrow> page \<Rightarrow> page" where
  "wireRowClickHandlers el s = s\<lparr>heap := each_row el click_handlers (heap s)\<rparr>"

text \<open>A freshly parsed row has no handler bound.\<close>

definition parse_row :: "row_markup \<Rightarrow> row" where
  "parse_row m =
     \<lparr>ssheet_id = ssheet_id m, sheet_title = sheet_title m, utc_datetime = utc_datetime m,
      visit_sheet = 0, sync_sheet = 0, delete_sheet = 0\<rparr>"

subsection \<open>Page load\<close>

text \<open>
  \<^verbatim>\<open>
  $(document).ready(function(){
    $(".utc-datetime").text(updateDateTimes);
    processNotificationsOnLoadOnDelete();
    $("#create-sheet-button").click(createOnClick);
    wireRowClickHandlers(document);
  });
  \<close>
  \<open>updateDateTimes\<close> does not use the index it is given.
\<close>

definition index_ready :: "'d moment \<Rightarrow> page \<Rightarrow> page" where
  "index_ready lib s =
     (let s1 = s\<lparr>heap := each_row (table s) (text_utc_datetime (updateDateTimes lib 0)) (heap s)\<rparr>;
          s2 = processNotificationsOnLoadOnDelete s1;
          s3 = s2\<lparr>create_sheet_button := Suc (create_sheet_button s2)\<rparr>
      in wireRowClickHandlers (table s3) s3)"

subsection \<open>Create\<close>

text \<open>
  \<^verbatim>\<open>
  function createOnClick() {
    $.ajax({
        type: 'GET',
        url: url_create,
        dataType: 'json',
        success: function(data, status, xhr){
          var row = $(data['row_to_insert'])
          $("#sheets-table tbody").append(row)
          $(row).find('.utc-datetime').text(updateDateTimes)
          wireRowClickHandlers(row);
          processNotificationsOnCreate();
        },
        error: function(xhr, status, error){
          informUserOfSheetAccessError(xhr['status'])
        },
    })
  }
  \<close>
  The click sends the request; each callback is a function of its own. The parsed rows
  are new elements: they take the next positions of the heap.
\<close>

definition createOnClick :: "page \<Rightarrow> page" where
  "createOnClick s =
     s\<lparr>requests := requests s @
        [\<lparr>type = ''GET'', url = url_create s, data = None, contentType = None,
          dataType = Some ''json'', success_error = Some CreateCallbacks\<rparr>]\<rparr>"

definition createOnClick_success :: "'d moment \<Rightarrow> create_data \<Rightarrow> page \<Rightarrow> page" where
  "createOnClick_success lib dat s =
     (let parsed = map parse_row (row_to_insert dat);
          row = [length (heap s) ..< length (heap s) + length parsed];
          s1 = s\<lparr>heap := heap s @ parsed\<rparr>;
          s2 = s1\<lparr>table := table s1 @ row\<rparr>;
          s3 = s2\<lparr>heap := each_row row (text_utc_datetime (updateDateTimes lib 0)) (heap s2)\<rparr>;
          s4 = wireRowClickHandlers row s3
      in processNotificationsOnCreate s4)"

definition createOnClick_error :: "nat \<Rightarrow> page \<Rightarrow> page" where
  "createOnClick_error xhr_status s = informUserOfSheetAccessError xhr_status s"

subsection \<open>Visit\<close>

text \<open>
  \<^verbatim>\<open>
  function visitSheetOnClick() {
    var row = $(this).closest("tr")
    var url_visit = 'https://docs.google.com/spreadsheets/d/' + row.attr('ssheet-id')
    window.open(url_visit, '_blank')
  }
  \<close>
\<close>

definition visitSheetOnClick :: "nat \<Rightarrow> page \<Rightarrow> page" where
  "visitSheetOnClick row s =
     (if row < length (heap s) then
        let url_visit = ''https://docs.google.com/spreadsheets/d/'' @ ssheet_id (heap s ! row)
        in s\<lparr>opened := opened s @ [(url_visit, ''_blank'')]\<rparr>
      else s)"

subsection \<open>Sync\<close>

text \<open>
  \<^verbatim>\<open>
  function syncSheetOnClick() {
    var row = $(this).closest("tr")
    $.ajax({
        type: 'POST',
        url: url_sync,
        data: JSON.stringify({ssheet_id: row.attr('ssheet-id')}),
        contentType: "application/json",
        dataType: 'json',
        success: function(data, status, xhr){
          var new_time = convertToLocalDateTime(data['datetime'])
          row.find('.utc-datetime').text(new_time);
          if ('title' in data) {
            row.find('.sheet-title').text(data['title']);
          }
          processNotificationsOnSync();
        },
        error: function(xhr, status, error){
          informUserOfSheetAccessError(xhr['status'])
        },
    })
  }
  \<close>
\<close>

definition syncSheetOnClick :: "nat \<Rightarrow> page \<Rightarrow> page" where
  "syncSheetOnClick row s =
     (if row < length (heap s) then
        s\<lparr>requests := requests s @
           [\<lparr>type = ''POST'', url = url_sync s,
             data = Some (JObject [(''ssheet_id'', JString (ssheet_id (heap s ! row)))]),
             contentType = Some ''application/json'',
             dataType = Some ''json'', success_error = Some (SyncCallbacks row)\<rparr>]\<rparr>
      else s)"

definition syncSheetOnClick_success :: "'d moment \<Rightarrow> nat \<Rightarrow> sync_data \<Rightarrow> page \<Rightarrow> page" where
  "syncSheetOnClick_success lib row dat s =
     (let new_time = convertToLocalDateTime lib (datetime dat);
          s1 = s\<lparr>heap := each_row [row] (text_utc_datetime (\<lambda>_. new_time)) (heap s)\<rparr>;
          s2 = (case title dat of
                  Some t \<Rightarrow> s1\<lparr>heap := each_row [row] (\<lambda>r. r\<lparr>sheet_title := t\<rparr>) (heap s1)\<rparr>
                | None \<Rightarrow> s1)
      in processNotificationsOnSync s2)"

definition syncSheetOnClick_error :: "nat \<Rightarrow> page \<Rightarrow> page" where
  "syncSheetOnClick_error xhr_status s = informUserOfSheetAccessError xhr_status s"

subsection \<open>Delete\<close>

text \<open>
  \<^verbatim>\<open>
  function deleteSheetOnClick() {
    var row = $(this).closest("tr")
    $.ajax({
      type: 'POST',
      url: url_delete,
      data: JSON.stringify({ssheet_id: row.attr('ssheet-id')}),
      contentType: "application/json",
      dataType: 'json',
      success: function(data, status, xhr){
        $(row).remove();
        processNotificationsOnLoadOnDelete();
      },
      error: function(xhr, status, error){
        informUserOfSheetAccessError(xhr['status'])
      },
    })
  }
  \<close>
  \<^verbatim>\<open>remove()\<close> takes the row out of the table and unbinds the handlers of its
  controls; on a row that has left the table already it changes nothing more.
\<close>

definition deleteSheetOnClick :: "nat \<Rightarrow> page \<Rightarrow> page" where
  "deleteSheetOnClick row s =
     (if row < length (heap s) then
        s\<lparr>requests := requests s @
           [\<lparr>type = ''POST'', url = url_delete s,
             data = Some (JObject [(''ssheet_id'', JString (ssheet_id (heap s ! row)))]),
             contentType = Some ''application/json'',
             dataType = Some ''json'', success_error = Some (DeleteCallbacks row)\<rparr>]\<rparr>
      else s)"

definition unbind_handlers :: "row \<Rightarrow> row" where
  "unbind_handlers r = r\<lparr>visit_sheet := 0, sync_sheet := 0, delete_sheet := 0\<rparr>"

definition deleteSheetOnClick_success :: "nat \<Rightarrow> page \<Rightarrow> page" where
  "deleteSheetOnClick_success row s =
     (let s1 = s\<lparr>table := removeAll row (table s)\<rparr>;
          s2 = s1\<lparr>heap := each_row [row] unbind_handlers (heap s1)\<rparr>
      in processNotificationsOnLoadOnDelete s2)"

definition deleteSheetOnClick_error :: "nat \<Rightarrow> page \<Rightarrow> page" where
  "deleteSheetOnClick_error xhr_status s = informUserOfSheetAccessError xhr_status s"

subsection \<open>Events\<close>

text \<open>
  What can happen to a loaded page: a click on a control, which runs each handler bound
  to it (a row's controls can be clicked while the row is in the table), or the arrival
  of the answer to a request, which runs the success or the error callback. An answer
  may arrive for a row that has left the table in the meantime.
\<close>

datatype event =
    ClickCreate
  | ClickVisit nat
  | ClickSync nat
  | ClickDelete nat
  | CreateSuccess create_data
  | CreateError nat
  | SyncSuccess nat sync_data
  | SyncError nat nat
  | DeleteSuccess nat
  | DeleteError nat nat

definition click_row :: "(row \<Rightarrow> nat) \<Rightarrow> (nat \<Rightarrow> page \<Rightarrow> page) \<Rightarrow> nat \<Rightarrow> page \<Rightarrow> page" where
  "click_row control handler row s =
     (if row \<in> set (table s) \<and> row < length (heap s)
      then (handler row ^^ control (heap s ! row)) s else s)"

fun step :: "'d moment \<Rightarrow> event \<Rightarrow> page \<Rightarrow> page" where
  "step lib ClickCreate s = (createOnClick ^^ create_sheet_button s) s"
| "step lib (ClickVisit row) s = click_row visit_sheet visitSheetOnClick row s"
| "step lib (ClickSync row) s = click_row sync_sheet syncSheetOnClick row s"
| "step lib (ClickDelete row) s = click_row delete_sheet deleteSheetOnClick row s"
| "step lib (CreateSuccess dat) s = createOnClick_success lib dat s"
| "step lib (CreateError xhr_status) s = createOnClick_error xhr_status s"
| "step lib (SyncSuccess row dat) s = syncSheetOnClick_success lib row dat s"
| "step lib (SyncError row xhr_status) s = syncSheetOnClick_error xhr_status s"
| "step lib (DeleteSuccess row) s = deleteSheetOnClick_success row s"
| "step lib (DeleteError row xhr_status) s = deleteSheetOnClick_error xhr_status s"

text \<open>
  Modelled from the spec: the page template is rendered by the server and is not part of
  the scripts. The page as served has both banners hidden (the scripts show the add
  banner themselves when there is no row), every row in the table, no handler bound and
  nothing done to the outside yet.
\<close>

definition initial_page :: "page \<Rightarrow> bool" where
  "initial_page s =
     (\<not> notification_add s \<and> \<not> notification_edit_sync s \<and>
      table s = [0 ..< length (heap s)] \<and>
      list_all (\<lambda>r. visit_sheet r = 0 \<and> sync_sheet r = 0 \<and> delete_sheet r = 0) (heap s) \<and>
      create_sheet_button s = 0 \<and> requests s = [] \<and> alerts s = [] \<and> reloads s = 0 \<and>
      opened s = [])"

text \<open>
  Modelled from the spec (external interfaces): the answer to a create request holds the
  markup of one row. \<open>one_row_answers\<close> admits the events that keep to this,
  \<open>any_event\<close> admits every event.
\<close>

fun one_row_answers :: "event \<Rightarrow> bool" where
  "one_row_answers (CreateSuccess dat) = (length (row_to_insert dat) = 1)"
| "one_row_answers _ = True"

definition any_event :: "event \<Rightarrow> bool" where
  "any_event e = True"

text \<open>
  The pages that a served page reaches by loading and then by events that \<open>allowed\<close>
  admits, in any number and order. Events are not tied to the requests sent before, so
  that the pages the browser can reach are among these.
\<close>

inductive reachable :: "(event \<Rightarrow> bool) \<Rightarrow> 'd moment \<Rightarrow> page \<Rightarrow> bool"
  for allowed :: "event \<Rightarrow> bool" and lib :: "'d moment" where
  loaded: "initial_page s \<Longrightarrow> reachable allowed lib (index_ready lib s)"
| stepped: "reachable allowed lib s \<Longrightarrow> allowed e \<Longrightarrow> reachable allowed lib (step lib e s)"

text \<open>
  The banner state in the words of the spec, as a function of the row count: the
  visibility of the add banner and of the edit/sync banner. \<open>banner_state\<close> is the one
  that the page has.
\<close>

definition spec_banner_state :: "nat \<Rightarrow> bool \<times> bool" where
  "spec_banner_state n = (n = 0, n = 1)"

definition banner_state :: "page \<Rightarrow> bool \<times> bool" where
  "banner_state s = (notification_add s, notification_edit_sync s)"

text \<open>
  What the page shows: the rows with their attributes, the rows in the table, and the
  visibility of the two banners.
\<close>

definition displayed :: "page \<Rightarrow> row list \<times> nat list \<times> bool \<times> bool" where
  "displayed s = (heap s, table s, notification_add s, notification_edit_sync s)"

section \<open>The settings page\<close>

text \<open>
  \<^verbatim>\<open>
  $(document).ready(function(){
    $("#submit-button").click(submitOnClick);
    $("#cancel-button").click(cancelOnClick);
  });

  function submitOnClick() {
    console.log('Going');
    console.log($("#notify").is(":checked"));
    $.ajax({
      type: 'POST',
      url: url_settings_post,
      data: JSON.stringify({notify: $("#notify").is(":checked")}),
      contentType: "application/json",
    });
    window.location = url_index;
  };

  function cancelOnClick() {
    console.log('Canceling');
    window.location = url_index;
  };
  \<close>
  \<open>notify\<close> is the state of the checkbox, \<open>posted\<close> the requests sent and \<open>location\<close>
  the value of \<^verbatim>\<open>window.location\<close>. The request of submit has no callback, and the
  handler takes no answer.
\<close>

datatype log = LogString string | LogBool bool

record settings =
  url_settings_post :: string
  url_index :: string
  notify :: bool
  submit_button :: nat
  cancel_button :: nat
  console :: "log list"
  posted :: "ajax list"
  location :: string

definition submitOnClick :: "settings \<Rightarrow> settings" where
  "submitOnClick s =
     (let s1 = s\<lparr>console := console s @ [LogString ''Going'']\<rparr>;
          s2 = s1\<lparr>console := console s1 @ [LogBool (notify s1)]\<rparr>;
          s3 = s2\<lparr>posted := posted s2 @
                 [\<lparr>type = ''POST'', url = url_settings_post s2,
                   data = Some (JObject [(''notify'', JBool (notify s2))]),
                   contentType = Some ''application/json'',
                   dataType = None, success_error = None\<rparr>]\<rparr>
      in s3\<lparr>location := url_index s3\<rparr>)"

definition cancelOnClick :: "settings \<Rightarrow> settings" where
  "cancelOnClick s =
     (let s1 = s\<lparr>console := console s @ [LogString ''Canceling'']\<rparr>
      in s1\<lparr>location := url_index s1\<rparr>)"

definition settings_ready :: "settings \<Rightarrow> settings" where
  "settings_ready s =
     (let s1 = s\<lparr>submit_button := Suc (submit_button s)\<rparr>
      in s1\<lparr>cancel_button := Suc (cancel_button s1)\<rparr>)"

section \<open>Timestamps in the fixed format\<close>

text \<open>
  Modelled from the spec: moment.js and the viewer's time zone are not part of the
  scripts. The spec fixes what the two calls do at the one format the script passes,
  \<^verbatim>\<open>MM-DD-YYYY HH:mm\<close>: the string is read as a UTC time, and the instant is
  written in the same format in the viewer's zone. The model covers the strings that are
  exactly of this format (two-digit month, day, hour and minute, four-digit year, the
  separators in place, a date of the proleptic Gregorian calendar, an hour up to 23 and
  a minute up to 59); every other string is an invalid date here, which the library
  prints as \<^verbatim>\<open>Invalid date\<close>. moment.js itself also reads some strings outside the
  format (a missing leading zero, the hour 24:00); those are not modelled. A date is the
  number of milliseconds since 1970-01-01 00:00 UTC, or \<open>None\<close> when invalid. A zone
  gives, for an instant, the offset of local time from UTC in milliseconds.
\<close>

subsection \<open>Digits\<close>

definition digit_char :: "nat \<Rightarrow> char" where
  "digit_char n = char_of (48 + n)"

definition digit_val :: "char \<Rightarrow> nat" where
  "digit_val c = of_char c - 48"

definition is_digit :: "char \<Rightarrow> bool" where
  "is_digit c = (48 \<le> (of_char c :: nat) \<and> (of_char c :: nat) \<le> 57)"

fun digits_of :: "nat \<Rightarrow> string" where
  "digits_of n = (if n < 10 then [digit_char n] else digits_of (n div 10) @ [digit_char (n mod 10)])"

declare digits_of.simps [simp del]

text \<open>moment's \<^verbatim>\<open>zeroFill(number, targetLength)\<close>, without a forced sign.\<close>

definition zeroFill :: "int \<Rightarrow> nat \<Rightarrow> string" where
  "zeroFill number targetLength =
     (let absNumber = digits_of (nat \<bar>number\<bar>);
          zerosToFill = targetLength - length absNumber
      in (if number \<ge> 0 then [] else ''-'') @ replicate zerosToFill (CHR ''0'') @ absNumber)"

subsection \<open>The calendar\<close>

text \<open>
  Day numbers count from 1970-01-01. Both directions work on years that begin on
  1 March, so that the leap day is the last day of the year: \<open>mp\<close> is the month
  counted from March and \<open>doy\<close> the day of such a year.
\<close>

definition leap_year :: "int \<Rightarrow> bool" where
  "leap_year y = (y mod 4 = 0 \<and> (y mod 100 \<noteq> 0 \<or> y mod 400 = 0))"

definition days_in_month :: "int \<Rightarrow> int \<Rightarrow> int" where
  "days_in_month y m =
     (if m = 2 then (if leap_year y then 29 else 28)
      else if m = 4 \<or> m = 6 \<or> m = 9 \<or> m = 11 then 30 else 31)"

definition days_from_civil :: "int \<Rightarrow> int \<Rightarrow> int \<Rightarrow> int" where
  "days_from_civil y m d =
     (let y1 = (if m \<le> 2 then y - 1 else y);
          mp = (if m \<le> 2 then m + 9 else m - 3);
          doy = (153 * mp + 2) div 5 + d - 1
      in 365 * y1 + y1 div 4 - y1 div 100 + y1 div 400 + doy - 719468)"

definition civil_from_days :: "int \<Rightarrow> int \<times> int \<times> int" where
  "civil_from_days z =
     (let z1 = z + 719468;
          era = z1 div 146097;
          doe = z1 mod 146097;
          c = min 3 (doe div 36524);
          r1 = doe - 36524 * c;
          q = r1 div 1461;
          r2 = r1 - 1461 * q;
          r = min 3 (r2 div 365);
          doy = r2 - 365 * r;
          y1 = 400 * era + 100 * c + 4 * q + r;
          mp = (5 * doy + 2) div 153;
          d = doy - (153 * mp + 2) div 5 + 1;
          m = (if mp < 10 then mp + 3 else mp - 9)
      in (if m \<le> 2 then y1 + 1 else y1, m, d))"

definition valid_date :: "int \<Rightarrow> int \<Rightarrow> int \<Rightarrow> bool" where
  "valid_date y m d = (1 \<le> m \<and> m \<le> 12 \<and> 1 \<le> d \<and> d \<le> days_in_month y m)"

text \<open>The number of days of the months counted from March, February taken as 29.\<close>

definition month_length :: "int \<Rightarrow> int" where
  "month_length mp = (if mp = 11 then 29 else if mp = 1 \<or> mp = 3 \<or> mp = 6 \<or> mp = 8 then 30 else 31)"

subsection \<open>Reading\<close>

definition two_digits :: "string \<Rightarrow> nat \<Rightarrow> int" where
  "two_digits s i = int (10 * digit_val (s ! i) + digit_val (s ! (i + 1)))"

definition four_digits :: "string \<Rightarrow> nat \<Rightarrow> int" where
  "four_digits s i =
     int (1000 * digit_val (s ! i) + 100 * digit_val (s ! (i + 1)) +
          10 * digit_val (s ! (i + 2)) + digit_val (s ! (i + 3)))"

definition fixed_shape :: "string \<Rightarrow> bool" where
  "fixed_shape s =
     (length s = 16 \<and> list_all (\<lambda>i. is_digit (s ! i)) [0, 1, 3, 4, 6, 7, 8, 9, 11, 12, 14, 15] \<and>
      s ! 2 = CHR ''-'' \<and> s ! 5 = CHR ''-'' \<and> s ! 10 = CHR '' '' \<and> s ! 13 = CHR '':'')"

definition fixed_format :: "string \<Rightarrow> bool" where
  "fixed_format s =
     (fixed_shape s \<and>
      (let M = two_digits s 0; D = two_digits s 3; Y = four_digits s 6;
           H = two_digits s 11; mi = two_digits s 14
       in valid_date Y M D \<and> H \<le> 23 \<and> mi \<le> 59))"

text \<open>
  Modelled from the spec: \<^verbatim>\<open>moment.utc(s, 'MM-DD-YYYY HH:mm').toDate()\<close>, which is not
  part of the scripts. A string of the fixed format is read as a UTC time.
\<close>

definition utc_instant :: "string \<Rightarrow> int option" where
  "utc_instant s =
     (if fixed_format s then
        Some (((days_from_civil (four_digits s 6) (two_digits s 0) (two_digits s 3) * 24
                + two_digits s 11) * 60 + two_digits s 14) * 60000)
      else None)"

subsection \<open>Writing\<close>

definition format_fields :: "int \<Rightarrow> int \<Rightarrow> int \<Rightarrow> int \<Rightarrow> int \<Rightarrow> string" where
  "format_fields M D Y H mi =
     zeroFill M 2 @ ''-'' @ zeroFill D 2 @ ''-'' @ zeroFill Y 4 @ '' '' @
     zeroFill H 2 @ '':'' @ zeroFill mi 2"

text \<open>
  Modelled from the spec: \<^verbatim>\<open>format('MM-DD-YYYY HH:mm')\<close> of moment.js, which is not part
  of the scripts, on the local time \<open>u\<close> in milliseconds; seconds and milliseconds are
  dropped.
\<close>

definition render :: "int \<Rightarrow> string" where
  "render u =
     (let days = u div 86400000;
          ms = u mod 86400000;
          (Y, M, D) = civil_from_days days;
          H = ms div 3600000;
          mi = ms mod 3600000 div 60000
      in format_fields M D Y H mi)"

text \<open>The local times whose year has four digits: from 0000-01-01 up to 9999-12-31.\<close>

definition four_digit_year :: "int \<Rightarrow> bool" where
  "four_digit_year u = (- 62167219200000 \<le> u \<and> u < 253402300800000)"

subsection \<open>The library at the fixed format\<close>

text \<open>
  Modelled from the spec: the two calls into moment.js, which is not part of the scripts,
  for a viewer in the given zone. The format passed is the fixed one at both calls of the
  script, and the model does not look at it.
\<close>

definition moment_fixed :: "(int \<Rightarrow> int) \<Rightarrow> int option moment" where
  "moment_fixed zone =
     \<lparr>moment_utc_toDate = (\<lambda>s f. utc_instant s),
      moment_format = (\<lambda>d f. case d of None \<Rightarrow> ''Invalid date''
                              | Some t \<Rightarrow> render (t + zone t))\<rparr>"

definition UTC :: "int \<Rightarrow> int" where
  "UTC t = 0"

definition UTC_plus_0530 :: "int \<Rightarrow> int" where
  "UTC_plus_0530 t = 19800000"

section \<open>Example values\<close>

definition empty_page :: page where
  "empty_page =
     \<lparr>url_create = ''/create'', url_sync = ''/sync'', url_delete = ''/delete'',
      heap = [], table = [], notification_add = False, notification_edit_sync = False,
      create_sheet_button = 0, requests = [], alerts = [], reloads = 0, opened = []\<rparr>"

definition abc123 :: row_markup where
  "abc123 = \<lparr>ssheet_id = ''abc123'', sheet_title = ''Stocks'', utc_datetime = ''01-02-2024 10:00''\<rparr>"

definition xyz789 :: row_markup where
  "xyz789 = \<lparr>ssheet_id = ''xyz789'', sheet_title = ''Bonds'', utc_datetime = ''12-31-2023 23:30''\<rparr>"

definition two_row_page :: page where
  "two_row_page = empty_page\<lparr>heap := [parse_row abc123, parse_row xyz789], table := [0, 1]\<rparr>"

definition create_abc123 :: create_data where
  "create_abc123 = \<lparr>row_to_insert = [abc123]\<rparr>"

definition sync_answer :: sync_data where
  "sync_answer = \<lparr>datetime = ''01-02-2024 10:00'', title = None\<rparr>"

definition sync_answer_titled :: sync_data where
  "sync_answer_titled = \<lparr>datetime = ''12-31-2023 23:30'', title = Some ''Portfolio''\<rparr>"

definition settings_page :: settings where
  "settings_page =
     \<lparr>url_settings_post = ''/settings'', url_index = ''/'', notify = True,
      submit_button = 0, cancel_button = 0, console = [], posted = [],
      location = ''/settings''\<rparr>"

section \<open>Properties of the sheet-list page\<close>

subsection \<open>Selections and frames\<close>

lemma length_each_row: "length (each_row els f h) = length h"
  by (simp add: each_row_def)

lemma nth_each_row:
  "i < length h \<Longrightarrow> each_row els f h ! i = (if i \<in> set els then f (h ! i) else h ! i)"
  by (simp add: each_row_def nth_enumerate_eq)

lemma each_row_single: "each_row [row] f h = h[row := f (h ! row)]"
  by (rule nth_equalityI) (auto simp: length_each_row nth_each_row nth_list_update)

lemma each_row_append_new:
  "each_row [length h ..< length h + length new] f (h @ new) = h @ map f new"
  by (rule nth_equalityI) (auto simp: length_each_row nth_each_row nth_append)

lemma funpow_frame: "(\<And>s. g (f s) = g s) \<Longrightarrow> g ((f ^^ n) s) = g s"
  by (induction n) auto

lemma displayed_createOnClick: "displayed (createOnClick s) = displayed s"
  by (simp add: displayed_def createOnClick_def)

lemma displayed_visitSheetOnClick: "displayed (visitSheetOnClick row s) = displayed s"
  by (simp add: displayed_def visitSheetOnClick_def Let_def)

lemma displayed_syncSheetOnClick: "displayed (syncSheetOnClick row s) = displayed s"
  by (simp add: displayed_def syncSheetOnClick_def)

lemma displayed_deleteSheetOnClick: "displayed (deleteSheetOnClick row s) = displayed s"
  by (simp add: displayed_def deleteSheetOnClick_def)

lemma displayed_click_row:
  "(\<And>row s. displayed (handler row s) = displayed s) \<Longrightarrow>
   displayed (click_row control handler row s) = displayed s"
  by (simp add: click_row_def funpow_frame)

lemma displayed_informUser:
  "displayed (informUserOfSheetAccessError statusCode s) = displayed s"
  by (simp add: displayed_def informUserOfSheetAccessError_def)

lemma displayed_index_ready:
  "notification_add (index_ready lib s) = (notification_add s \<or> rowCount s = 0)"
  "notification_edit_sync (index_ready lib s) = notification_edit_sync s"
  "table (index_ready lib s) = table s"
  by (simp_all add: index_ready_def processNotificationsOnLoadOnDelete_def
      wireRowClickHandlers_def rowCount_def Let_def)

lemma createOnClick_success_fields:
  "table (createOnClick_success lib dat s) =
     table s @ [length (heap s) ..< length (heap s) + length (row_to_insert dat)]"
  "notification_add (createOnClick_success lib dat s) = False"
  "notification_edit_sync (createOnClick_success lib dat s) =
     (rowCount (createOnClick_success lib dat s) = 1)"
  by (simp_all add: createOnClick_success_def processNotificationsOnCreate_def
      wireRowClickHandlers_def rowCount_def Let_def)

lemma syncSheetOnClick_success_fields:
  "table (syncSheetOnClick_success lib row dat s) = table s"
  "notification_add (syncSheetOnClick_success lib row dat s) = notification_add s"
  "notification_edit_sync (syncSheetOnClick_success lib row dat s) = False"
  by (simp_all add: syncSheetOnClick_success_def processNotificationsOnSync_def Let_def
      split: option.splits)

lemma deleteSheetOnClick_success_fields:
  "table (deleteSheetOnClick_success row s) = removeAll row (table s)"
  "notification_add (deleteSheetOnClick_success row s) =
     (notification_add s \<or> removeAll row (table s) = [])"
  "notification_edit_sync (deleteSheetOnClick_success row s) = notification_edit_sync s"
  "length (heap (deleteSheetOnClick_success row s)) = length (heap s)"
  by (simp_all add: deleteSheetOnClick_success_def processNotificationsOnLoadOnDelete_def
      rowCount_def length_each_row Let_def)

lemma displayed_step_other:
  "(\<forall>dat. e \<noteq> CreateSuccess dat) \<Longrightarrow> (\<forall>row dat. e \<noteq> SyncSuccess row dat) \<Longrightarrow>
   (\<forall>row. e \<noteq> DeleteSuccess row) \<Longrightarrow> displayed (step lib e s) = displayed s"
  by (cases e)
    (simp_all add: funpow_frame displayed_createOnClick displayed_click_row
      displayed_visitSheetOnClick displayed_syncSheetOnClick displayed_deleteSheetOnClick
      createOnClick_error_def syncSheetOnClick_error_def deleteSheetOnClick_error_def
      displayed_informUser)

lemma heap_step_other:
  "(\<forall>dat. e \<noteq> CreateSuccess dat) \<Longrightarrow> (\<forall>row dat. e \<noteq> SyncSuccess row dat) \<Longrightarrow>
   (\<forall>row. e \<noteq> DeleteSuccess row) \<Longrightarrow>
   heap (step lib e s) = heap s \<and> table (step lib e s) = table s \<and>
   notification_add (step lib e s) = notification_add s"
  using displayed_step_other [of e lib s] by (simp add: displayed_def)

lemma length_heap:
  "length (heap (index_ready lib s)) = length (heap s)"
  "length (heap (createOnClick_success lib dat s)) = length (heap s) + length (row_to_insert dat)"
  "length (heap (syncSheetOnClick_success lib row sdat s)) = length (heap s)"
  by (simp_all add: index_ready_def createOnClick_success_def syncSheetOnClick_success_def
      processNotificationsOnLoadOnDelete_def processNotificationsOnCreate_def
      processNotificationsOnSync_def wireRowClickHandlers_def length_each_row Let_def
      split: option.splits)

text \<open>Where the add banner is shown, the table has no row.\<close>

lemma reachable_add_banner:
  "reachable allowed lib s \<Longrightarrow> notification_add s \<Longrightarrow> table s = []"
proof (induction rule: reachable.induct)
  case (loaded s)
  then show ?case
    by (simp add: displayed_index_ready initial_page_def rowCount_def)
next
  case (stepped s e)
  show ?case
  proof (cases e)
    case (CreateSuccess dat)
    with stepped show ?thesis by (simp add: createOnClick_success_fields)
  next
    case (SyncSuccess row dat)
    with stepped show ?thesis by (simp add: syncSheetOnClick_success_fields)
  next
    case (DeleteSuccess row)
    with stepped show ?thesis by (auto simp add: deleteSheetOnClick_success_fields)
  qed (use stepped heap_step_other [of e lib s] in simp_all)
qed

text \<open>When every create answer holds one row, the add banner is shown where the table has no row.\<close>

lemma reachable_no_row:
  "reachable one_row_answers lib s \<Longrightarrow> table s = [] \<Longrightarrow> notification_add s"
proof (induction rule: reachable.induct)
  case (loaded s)
  then show ?case
    by (simp add: displayed_index_ready initial_page_def rowCount_def)
next
  case (stepped s e)
  show ?case
  proof (cases e)
    case (CreateSuccess dat)
    with stepped show ?thesis by (simp add: createOnClick_success_fields)
  next
    case (SyncSuccess row dat)
    with stepped show ?thesis by (simp add: syncSheetOnClick_success_fields)
  next
    case (DeleteSuccess row)
    with stepped show ?thesis by (simp add: deleteSheetOnClick_success_fields)
  qed (use stepped heap_step_other [of e lib s] in simp_all)
qed

text \<open>The table lists rows that exist, each once.\<close>

lemma reachable_table:
  "reachable allowed lib s \<Longrightarrow> distinct (table s) \<and> (\<forall>i \<in> set (table s). i < length (heap s))"
proof (induction rule: reachable.induct)
  case (loaded s)
  then show ?case
    by (simp add: displayed_index_ready length_heap initial_page_def)
next
  case (stepped s e)
  show ?case
  proof (cases e)
    case (CreateSuccess dat)
    with stepped show ?thesis
      by (fastforce simp add: createOnClick_success_fields length_heap)
  next
    case (SyncSuccess row dat)
    with stepped show ?thesis by (simp add: syncSheetOnClick_success_fields length_heap)
  next
    case (DeleteSuccess row)
    with stepped show ?thesis
      by (simp add: deleteSheetOnClick_success_fields distinct_removeAll)
  qed (use stepped heap_step_other [of e lib s] in simp_all)
qed

lemma length_removeAll_distinct:
  "distinct xs \<Longrightarrow> x \<in> set xs \<Longrightarrow> length (removeAll x xs) + 1 = length xs"
  by (induction xs) auto

lemma each_row_new: "each_row [length h] f (h @ [r]) = h @ [f r]"
  using each_row_append_new [of h "[r]" f] by simp

lemma informUser_alert:
  assumes "statusCode \<noteq> 401"
  shows "\<exists>message. informUserOfSheetAccessError statusCode s = s\<lparr>alerts := alerts s @ [message]\<rparr>"
proof -
  let ?m = "if statusCode = 403 then ''You are not authorized to modify this sheet.''
            else if statusCode = 404 then ''Sheet was not found.''
            else if statusCode = 400 then
              ''Sheet formatted incorrectly. Make sure there are no blank rows and the first row is a header.''
            else ''Could not perform operation.''"
  have "informUserOfSheetAccessError statusCode s = s\<lparr>alerts := alerts s @ [?m]\<rparr>"
    using assms by (simp add: informUserOfSheetAccessError_def)
  then show ?thesis by (rule exI [where x = ?m])
qed

lemma initial_empty_page: "initial_page empty_page"
  by (simp add: initial_page_def empty_page_def)

lemma initial_two_row_page: "initial_page two_row_page"
  by (simp add: initial_page_def two_row_page_def empty_page_def parse_row_def)

section \<open>Properties of the calendar\<close>

subsection \<open>Division\<close>

lemma div_eqI:
  fixes x k n :: int
  assumes "k * n \<le> x" "x < k * n + k"
  shows "x div k = n"
  using assms int_div_pos_eq [of x k n "x - k * n"] by simp

lemma div_bounds:
  fixes x k :: int
  assumes "0 < k"
  shows "k * (x div k) \<le> x" "x < k * (x div k) + k"
proof -
  have "x = k * (x div k) + x mod k" by simp
  moreover have "0 \<le> x mod k" "x mod k < k" using assms by simp_all
  ultimately show "k * (x div k) \<le> x" "x < k * (x div k) + k" by linarith+
qed

lemma mod_eqI:
  fixes x k n :: int
  assumes "k * n \<le> x" "x < k * n + k"
  shows "x mod k = x - k * n"
  using assms int_mod_pos_eq [of x k n "x - k * n"] by simp

lemma range12:
  "0 \<le> (i::int) \<Longrightarrow> i \<le> 11 \<Longrightarrow>
   i = 0 \<or> i = 1 \<or> i = 2 \<or> i = 3 \<or> i = 4 \<or> i = 5 \<or> i = 6 \<or> i = 7 \<or> i = 8 \<or> i = 9 \<or> i = 10 \<or> i = 11"
  by presburger

subsection \<open>Months and days\<close>

lemma mp_of_day:
  fixes mp d :: int
  assumes "0 \<le> mp" "mp \<le> 11" "1 \<le> d" "d \<le> month_length mp"
  shows "(5 * ((153 * mp + 2) div 5 + d - 1) + 2) div 153 = mp"
  using range12 [OF assms(1,2)] assms(3,4)
  by (auto simp add: month_length_def intro!: div_eqI)

lemma day_of_mp:
  fixes doy :: int
  assumes "0 \<le> doy" "doy \<le> 365"
  defines "mp \<equiv> (5 * doy + 2) div 153"
  defines "d \<equiv> doy - (153 * mp + 2) div 5 + 1"
  shows "0 \<le> mp" "mp \<le> 11" "1 \<le> d" "d \<le> month_length mp" "mp = 11 \<Longrightarrow> doy \<le> 364 \<Longrightarrow> d \<le> 28"
    "d = 29 \<Longrightarrow> mp = 11 \<Longrightarrow> doy = 365"
proof -
  have b: "153 * mp \<le> 5 * doy + 2" "5 * doy + 2 < 153 * mp + 153"
    unfolding mp_def by (rule div_bounds, simp)+
  with assms(1,2) show mp: "0 \<le> mp" "mp \<le> 11" by linarith+
  from range12 [OF mp] b assms(1,2)
  show "1 \<le> d" "d \<le> month_length mp" "mp = 11 \<Longrightarrow> doy \<le> 364 \<Longrightarrow> d \<le> 28"
    "d = 29 \<Longrightarrow> mp = 11 \<Longrightarrow> doy = 365"
    unfolding d_def month_length_def by auto
qed

subsection \<open>Years\<close>

text \<open>
  A year counted from March splits into 400-year eras \<open>e\<close>, centuries \<open>c\<close>, four-year
  cycles \<open>q\<close> and years \<open>r\<close>; a day number splits into the same parts and the day of
  the year.
\<close>

lemma year_sum_parts:
  fixes e c q r :: int
  assumes "0 \<le> c" "c \<le> 3" "0 \<le> q" "q \<le> 24" "0 \<le> r" "r \<le> 3"
  defines "y1 \<equiv> 400 * e + 100 * c + 4 * q + r"
  shows "365 * y1 + y1 div 4 - y1 div 100 + y1 div 400 =
         146097 * e + 36524 * c + 1461 * q + 365 * r"
proof -
  have "y1 div 4 = 100 * e + 25 * c + q"
    using assms(1-6) unfolding y1_def by (intro div_eqI) simp_all
  moreover have "y1 div 100 = 4 * e + c"
    using assms(1-6) unfolding y1_def by (intro div_eqI) simp_all
  moreover have "y1 div 400 = e"
    using assms(1-6) unfolding y1_def by (intro div_eqI) simp_all
  ultimately show ?thesis by (simp add: y1_def)
qed

lemma leap_parts:
  fixes e c q r :: int
  assumes "0 \<le> c" "c \<le> 3" "0 \<le> q" "q \<le> 24" "0 \<le> r" "r \<le> 3"
  shows "leap_year (400 * e + 100 * c + 4 * q + r + 1) = (r = 3 \<and> (q = 24 \<longrightarrow> c = 3))"
proof -
  let ?y = "400 * e + 100 * c + 4 * q + r + 1"
  show ?thesis
  proof (cases "r = 3")
    case False
    have "?y mod 4 = ?y - 4 * (100 * e + 25 * c + q)"
      using assms False by (intro mod_eqI) simp_all
    with assms False show ?thesis by (simp add: leap_year_def)
  next
    case r3: True
    have m4: "?y mod 4 = ?y - 4 * (100 * e + 25 * c + q + 1)"
      using assms r3 by (intro mod_eqI) simp_all
    show ?thesis
    proof (cases "q = 24")
      case False
      have "?y mod 100 = ?y - 100 * (4 * e + c)"
        using assms r3 False by (intro mod_eqI) simp_all
      with assms r3 False m4 show ?thesis by (simp add: leap_year_def)
    next
      case q24: True
      have m100: "?y mod 100 = ?y - 100 * (4 * e + c + 1)"
        using assms r3 q24 by (intro mod_eqI) simp_all
      show ?thesis
      proof (cases "c = 3")
        case True
        have "?y mod 400 = ?y - 400 * (e + 1)"
          using r3 q24 True by (intro mod_eqI) simp_all
        with r3 q24 True m4 m100 show ?thesis by (simp add: leap_year_def)
      next
        case False
        have "?y mod 400 = ?y - 400 * e"
          using assms r3 q24 False by (intro mod_eqI) simp_all
        with assms r3 q24 False m4 m100 show ?thesis by (simp add: leap_year_def)
      qed
    qed
  qed
qed

lemma year_parts_ex:
  fixes y1 :: int
  shows "\<exists>e c q r. y1 = 400 * e + 100 * c + 4 * q + r \<and>
           0 \<le> c \<and> c \<le> 3 \<and> 0 \<le> q \<and> q \<le> 24 \<and> 0 \<le> r \<and> r \<le> 3"
proof -
  define e where "e = y1 div 400"
  define t where "t = y1 - 400 * e"
  define c where "c = t div 100"
  define u where "u = t - 100 * c"
  define q where "q = u div 4"
  define r where "r = u - 4 * q"
  have t: "0 \<le> t" "t < 400"
    using div_bounds [of 400 y1] by (simp_all add: t_def e_def)
  have u: "0 \<le> u" "u < 100"
    using div_bounds [of 100 t] by (simp_all add: u_def c_def)
  have r: "0 \<le> r" "r < 4"
    using div_bounds [of 4 u] by (simp_all add: r_def q_def)
  have c: "0 \<le> c" "c \<le> 3"
    using t u by (simp_all add: u_def)
  have q: "0 \<le> q" "q \<le> 24"
    using u r by (simp_all add: r_def)
  have "y1 = 400 * e + 100 * c + 4 * q + r"
    by (simp add: r_def u_def t_def)
  with c q r show ?thesis by force
qed

lemma civil_from_days_parts:
  fixes e c q r doy :: int
  assumes c: "0 \<le> c" "c \<le> 3" and q: "0 \<le> q" "q \<le> 24" and r: "0 \<le> r" "r \<le> 3"
    and doy: "0 \<le> doy" "doy \<le> 365" "doy = 365 \<Longrightarrow> r = 3 \<and> (q = 24 \<longrightarrow> c = 3)"
  shows "civil_from_days (146097 * e + 36524 * c + 1461 * q + 365 * r + doy - 719468) =
     (let mp = (5 * doy + 2) div 153;
          d = doy - (153 * mp + 2) div 5 + 1;
          m = (if mp < 10 then mp + 3 else mp - 9);
          y1 = 400 * e + 100 * c + 4 * q + r
      in (if m \<le> 2 then y1 + 1 else y1, m, d))"
proof -
  define doe where "doe = 36524 * c + 1461 * q + 365 * r + doy"
  define r1 where "r1 = 1461 * q + 365 * r + doy"
  define r2 where "r2 = 365 * r + doy"
  have z1: "146097 * e + 36524 * c + 1461 * q + 365 * r + doy - 719468 + 719468 = 146097 * e + doe"
    by (simp add: doe_def)
  have doe_range: "0 \<le> doe" "doe < 146097"
    using c q r doy(1,2) by (simp_all add: doe_def)
  have era: "(146097 * e + doe) div 146097 = e" "(146097 * e + doe) mod 146097 = doe"
    using doe_range by (auto intro: int_div_pos_eq int_mod_pos_eq)
  have cent: "min 3 (doe div 36524) = c"
  proof (cases "doy = 365 \<and> q = 24")
    case True
    with doy(3) have "c = 3" "r = 3" by simp_all
    with True have "doe = 36524 * 4" by (simp add: doe_def)
    then have "doe div 36524 = 4" by simp
    with \<open>c = 3\<close> show ?thesis by simp
  next
    case False
    with q r doy have "r1 < 36524" by (auto simp add: r1_def)
    moreover have "0 \<le> r1" using q r doy by (simp add: r1_def)
    moreover have "doe = 36524 * c + r1" by (simp add: doe_def r1_def)
    ultimately have "doe div 36524 = c" by (rule_tac int_div_pos_eq)
    with c show ?thesis by simp
  qed
  have r1: "doe - 36524 * c = r1"
    by (simp add: doe_def r1_def)
  have quad: "r1 div 1461 = q"
  proof -
    have "r1 = 1461 * q + r2" by (simp add: r1_def r2_def)
    moreover have "0 \<le> r2" "r2 < 1461" using r doy by (simp_all add: r2_def)
    ultimately show ?thesis by (rule int_div_pos_eq)
  qed
  have r2: "r1 - 1461 * q = r2"
    by (simp add: r1_def r2_def)
  have yr: "min 3 (r2 div 365) = r"
  proof (cases "doy = 365")
    case True
    with doy(3) have "r = 3" by simp
    with True have "r2 = 365 * 4" by (simp add: r2_def)
    then have "r2 div 365 = 4" by simp
    with \<open>r = 3\<close> show ?thesis by simp
  next
    case False
    with doy have "doy < 365" by simp
    with doy(1) have "r2 div 365 = r"
      by (intro int_div_pos_eq [where r = doy]) (simp_all add: r2_def)
    with r show ?thesis by simp
  qed
  have doy': "r2 - 365 * r = doy"
    by (simp add: r2_def)
  show ?thesis
    unfolding civil_from_days_def z1 Let_def era cent r1 quad r2 yr doy' ..
qed

subsection \<open>The two directions are inverse\<close>

lemma days_in_month_mp:
  fixes mp :: int
  assumes "0 \<le> mp" "mp \<le> 10"
  shows "days_in_month y (if mp < 10 then mp + 3 else mp - 9) = month_length mp"
proof -
  from assms have "0 \<le> mp" "mp \<le> 11" by simp_all
  from range12 [OF this] assms show ?thesis
    by (auto simp add: days_in_month_def month_length_def)
qed

lemma days_in_month_le: "1 \<le> m \<Longrightarrow> m \<le> 12 \<Longrightarrow>
  days_in_month y m \<le> month_length (if m \<le> 2 then m + 9 else m - 3)"
  by (auto simp add: days_in_month_def month_length_def)

text \<open>The date computed from the parts of a day number is valid and has that day number.\<close>

lemma parts_date:
  fixes e c q r doy :: int
  assumes c: "0 \<le> c" "c \<le> 3" and q: "0 \<le> q" "q \<le> 24" and r: "0 \<le> r" "r \<le> 3"
    and doy: "0 \<le> doy" "doy \<le> 365" "doy = 365 \<Longrightarrow> r = 3 \<and> (q = 24 \<longrightarrow> c = 3)"
  defines "mp \<equiv> (5 * doy + 2) div 153"
  defines "d \<equiv> doy - (153 * mp + 2) div 5 + 1"
  defines "m \<equiv> (if mp < 10 then mp + 3 else mp - 9)"
  defines "y1 \<equiv> 400 * e + 100 * c + 4 * q + r"
  defines "y \<equiv> (if m \<le> 2 then y1 + 1 else y1)"
  shows "valid_date y m d"
    and "days_from_civil y m d = 146097 * e + 36524 * c + 1461 * q + 365 * r + doy - 719468"
proof -
  note md = day_of_mp [OF doy(1,2), folded mp_def, folded d_def]
  have m: "1 \<le> m" "m \<le> 12"
    using md(1,2) by (simp_all add: m_def)
  have shifted: "(if m \<le> 2 then m + 9 else m - 3) = mp" "(if m \<le> 2 then y - 1 else y) = y1"
    using md(1,2) by (simp_all add: m_def y_def)
  have "d \<le> days_in_month y m"
  proof (cases "mp = 11")
    case False
    with md(1,2) have "mp \<le> 10" by simp
    from days_in_month_mp [OF md(1) this, of y] md(4) show ?thesis
      by (simp add: m_def)
  next
    case True
    then have my: "m = 2" "y = y1 + 1" by (simp_all add: m_def y_def)
    show ?thesis
    proof (cases "doy = 365")
      case True
      from doy(3) [OF this] leap_parts [OF c q r, of e] have "leap_year y"
        by (simp add: my y1_def)
      with md(4) \<open>mp = 11\<close> show ?thesis
        by (simp add: my days_in_month_def month_length_def)
    next
      case False
      with doy(2) have "doy \<le> 364" by simp
      from md(5) [OF \<open>mp = 11\<close> this] show ?thesis
        by (simp add: my days_in_month_def)
    qed
  qed
  with m md(3) show "valid_date y m d" by (simp add: valid_date_def)
  have "(153 * mp + 2) div 5 + d - 1 = doy" by (simp add: d_def)
  with year_sum_parts [OF c q r, of e, folded y1_def]
  show "days_from_civil y m d = 146097 * e + 36524 * c + 1461 * q + 365 * r + doy - 719468"
    by (simp add: days_from_civil_def Let_def shifted)
qed

text \<open>Every day number has parts.\<close>

lemma days_parts_ex:
  fixes z1 :: int
  shows "\<exists>e c q r doy. z1 = 146097 * e + 36524 * c + 1461 * q + 365 * r + doy \<and>
           0 \<le> c \<and> c \<le> 3 \<and> 0 \<le> q \<and> q \<le> 24 \<and> 0 \<le> r \<and> r \<le> 3 \<and>
           0 \<le> doy \<and> doy \<le> 365 \<and> (doy = 365 \<longrightarrow> r = 3 \<and> (q = 24 \<longrightarrow> c = 3))"
proof -
  define e where "e = z1 div 146097"
  define doe where "doe = z1 - 146097 * e"
  define c where "c = min 3 (doe div 36524)"
  define r1 where "r1 = doe - 36524 * c"
  define q where "q = r1 div 1461"
  define r2 where "r2 = r1 - 1461 * q"
  define r where "r = min 3 (r2 div 365)"
  define doy where "doy = r2 - 365 * r"
  have doe: "0 \<le> doe" "doe < 146097"
    using div_bounds [of 146097 z1] by (simp_all add: doe_def e_def)
  have c: "0 \<le> c" "c \<le> 3" and r1: "0 \<le> r1" "r1 \<le> 36524" "r1 = 36524 \<Longrightarrow> c = 3"
    using div_bounds [of 36524 doe] doe by (auto simp add: c_def r1_def min_def split: if_splits)
  have q: "0 \<le> q" "q \<le> 24" and r2: "0 \<le> r2" "r2 < 1461" "q = 24 \<Longrightarrow> r2 = 1460 \<Longrightarrow> c = 3"
    using div_bounds [of 1461 r1] r1 by (auto simp add: q_def r2_def)
  have r: "0 \<le> r" "r \<le> 3" and doy: "0 \<le> doy" "doy \<le> 365" "doy = 365 \<Longrightarrow> r = 3 \<and> r2 = 1460"
    using div_bounds [of 365 r2] r2(1,2) by (auto simp add: r_def doy_def min_def split: if_splits)
  have "z1 = 146097 * e + 36524 * c + 1461 * q + 365 * r + doy"
    by (simp add: doy_def r2_def r1_def doe_def)
  moreover have "doy = 365 \<longrightarrow> r = 3 \<and> (q = 24 \<longrightarrow> c = 3)"
    using doy(3) r2(3) by blast
  ultimately show ?thesis
    using c q r doy(1,2) by blast
qed

lemma days_from_civil_inverse:
  assumes "civil_from_days z = (y, m, d)"
  shows "valid_date y m d \<and> days_from_civil y m d = z"
proof -
  obtain e c q r doy where z: "z + 719468 = 146097 * e + 36524 * c + 1461 * q + 365 * r + doy"
    and c: "0 \<le> c" "c \<le> 3" and q: "0 \<le> q" "q \<le> 24" and r: "0 \<le> r" "r \<le> 3"
    and doy: "0 \<le> doy" "doy \<le> 365" "doy = 365 \<Longrightarrow> r = 3 \<and> (q = 24 \<longrightarrow> c = 3)"
    using days_parts_ex [of "z + 719468"] by blast
  from z have z': "z = 146097 * e + 36524 * c + 1461 * q + 365 * r + doy - 719468"
    by simp
  from civil_from_days_parts [OF c q r doy, of e] assms
  have ymd: "y = (if (if (5 * doy + 2) div 153 < 10 then (5 * doy + 2) div 153 + 3
                      else (5 * doy + 2) div 153 - 9) \<le> 2
                  then 400 * e + 100 * c + 4 * q + r + 1 else 400 * e + 100 * c + 4 * q + r)"
    "m = (if (5 * doy + 2) div 153 < 10 then (5 * doy + 2) div 153 + 3
          else (5 * doy + 2) div 153 - 9)"
    "d = doy - (153 * ((5 * doy + 2) div 153) + 2) div 5 + 1"
    unfolding z' [symmetric] Let_def by simp_all
  show ?thesis
    unfolding ymd z' using parts_date [OF c q r doy, of e] by simp
qed

lemma civil_from_days_inverse:
  assumes "valid_date y m d"
  shows "civil_from_days (days_from_civil y m d) = (y, m, d)"
proof -
  define y1 where "y1 = (if m \<le> 2 then y - 1 else y)"
  define mp where "mp = (if m \<le> 2 then m + 9 else m - 3)"
  define doy where "doy = (153 * mp + 2) div 5 + d - 1"
  from assms have m: "1 \<le> m" "m \<le> 12" and d: "1 \<le> d" "d \<le> days_in_month y m"
    by (simp_all add: valid_date_def)
  have mp: "0 \<le> mp" "mp \<le> 11"
    using m by (simp_all add: mp_def)
  have dl: "d \<le> month_length mp"
    using days_in_month_le [OF m, of y] d(2) by (simp add: mp_def)
  obtain e c q r where y1: "y1 = 400 * e + 100 * c + 4 * q + r"
    and c: "0 \<le> c" "c \<le> 3" and q: "0 \<le> q" "q \<le> 24" and r: "0 \<le> r" "r \<le> 3"
    using year_parts_ex [of y1] by blast
  have doy: "0 \<le> doy" "doy \<le> 365" and last: "doy = 365 \<Longrightarrow> mp = 11 \<and> d = 29"
    using range12 [OF mp] d(1) dl
    by (auto simp add: doy_def month_length_def split: if_splits)
  have leap: "r = 3 \<and> (q = 24 \<longrightarrow> c = 3)" if "doy = 365"
  proof -
    from last [OF that] m have "m = 2" "d = 29" "y = y1 + 1"
      by (auto simp add: mp_def y1_def split: if_splits)
    with d(2) have "leap_year (y1 + 1)"
      by (simp add: days_in_month_def split: if_splits)
    with leap_parts [OF c q r, of e] show ?thesis
      by (simp add: y1)
  qed
  have "days_from_civil y m d = 365 * y1 + y1 div 4 - y1 div 100 + y1 div 400 + doy - 719468"
    by (simp add: days_from_civil_def Let_def y1_def mp_def doy_def)
  with year_sum_parts [OF c q r, of e]
  have "days_from_civil y m d = 146097 * e + 36524 * c + 1461 * q + 365 * r + doy - 719468"
    by (simp add: y1)
  moreover have "(5 * doy + 2) div 153 = mp"
    unfolding doy_def by (rule mp_of_day [OF mp d(1) dl])
  moreover have "doy - (153 * mp + 2) div 5 + 1 = d"
    by (simp add: doy_def)
  moreover have "(if mp < 10 then mp + 3 else mp - 9) = m"
    using m by (simp add: mp_def)
  moreover have "(if m \<le> 2 then y1 + 1 else y1) = y"
    by (simp add: y1_def)
  ultimately show ?thesis
    using civil_from_days_parts [OF c q r doy leap, of e]
    by (simp add: Let_def y1 [symmetric])
qed

lemma year_range:
  assumes "valid_date y m d"
    and "- 719528 \<le> days_from_civil y m d" "days_from_civil y m d < 2932897"
  shows "0 \<le> y" "y \<le> 9999"
proof -
  define y1 where "y1 = (if m \<le> 2 then y - 1 else y)"
  define mp where "mp = (if m \<le> 2 then m + 9 else m - 3)"
  define doy where "doy = (153 * mp + 2) div 5 + d - 1"
  from assms have m: "1 \<le> m" "m \<le> 12" and d: "1 \<le> d" "d \<le> days_in_month y m"
    by (simp_all add: valid_date_def)
  have mp: "0 \<le> mp" "mp \<le> 11"
    using m by (simp_all add: mp_def)
  have dl: "d \<le> month_length mp"
    using days_in_month_le [OF m, of y] d(2) by (simp add: mp_def)
  have doy: "m \<le> 2 \<Longrightarrow> 306 \<le> doy" "doy \<le> 365" "2 < m \<Longrightarrow> doy \<le> 305" "0 \<le> doy"
    using range12 [OF mp] d(1) dl m
    by (auto simp add: doy_def mp_def month_length_def split: if_splits)
  have dfc: "days_from_civil y m d = 365 * y1 + y1 div 4 - y1 div 100 + y1 div 400 + doy - 719468"
    by (simp add: days_from_civil_def Let_def y1_def mp_def doy_def)
  note b4 = div_bounds [of 4 y1] and b100 = div_bounds [of 100 y1] and b400 = div_bounds [of 400 y1]
  show "0 \<le> y"
  proof (rule ccontr)
    assume "\<not> 0 \<le> y"
    then have "y1 \<le> - 1" "m \<le> 2 \<Longrightarrow> y1 \<le> - 2" by (simp_all add: y1_def)
    moreover from this(1) b400 have "y1 div 400 \<le> - 1" by linarith
    ultimately show False
      using b4 b100 b400 doy assms(2)
      unfolding dfc by (cases "m \<le> 2") simp_all
  qed
  show "y \<le> 9999"
  proof (rule ccontr)
    assume "\<not> y \<le> 9999"
    then have "10000 \<le> y1 \<or> (m \<le> 2 \<and> y1 = 9999)" "m > 2 \<Longrightarrow> 10000 \<le> y1" by (auto simp add: y1_def)
    with b4 b100 b400 doy assms(3) show False
      unfolding dfc by (cases "m \<le> 2") auto
  qed
qed

section \<open>Properties of reading and writing\<close>

lemma digit_char_0: "digit_char 0 = CHR ''0''"
  unfolding digit_char_def by code_simp

lemma replicate_2: "replicate 2 c = [c, c]"
  by (simp add: numeral_2_eq_2)

lemma replicate_3: "replicate 3 c = [c, c, c]"
  by (simp add: numeral_3_eq_3)

lemma digit_val_char: "n < 10 \<Longrightarrow> digit_val (digit_char n) = n"
  by (simp add: digit_val_def digit_char_def)

lemma is_digit_char: "n < 10 \<Longrightarrow> is_digit (digit_char n)"
  by (simp add: is_digit_def digit_char_def)

lemma digit_char_val: "is_digit c \<Longrightarrow> digit_char (digit_val c) = c"
  by (simp add: is_digit_def digit_char_def digit_val_def)

lemma digit_val_less: "is_digit c \<Longrightarrow> digit_val c < 10"
  by (auto simp add: is_digit_def digit_val_def)

lemma digits_of_1: "n < 10 \<Longrightarrow> digits_of n = [digit_char n]"
  by (simp add: digits_of.simps)

lemma digits_of_2: "10 \<le> n \<Longrightarrow> n < 100 \<Longrightarrow> digits_of n = [digit_char (n div 10), digit_char (n mod 10)]"
  by (subst digits_of.simps) (simp add: digits_of_1)

lemma digits_of_3: "100 \<le> n \<Longrightarrow> n < 1000 \<Longrightarrow>
  digits_of n = [digit_char (n div 100), digit_char (n div 10 mod 10), digit_char (n mod 10)]"
  by (subst digits_of.simps) (simp add: digits_of_2 div_mult2_eq [symmetric])

lemma digits_of_4: "1000 \<le> n \<Longrightarrow> n < 10000 \<Longrightarrow>
  digits_of n = [digit_char (n div 1000), digit_char (n div 100 mod 10),
                 digit_char (n div 10 mod 10), digit_char (n mod 10)]"
  by (subst digits_of.simps) (simp add: digits_of_3 div_mult2_eq [symmetric])

lemma zeroFill_2:
  assumes "0 \<le> k" "k < 100"
  shows "zeroFill k 2 = [digit_char (nat k div 10), digit_char (nat k mod 10)]"
proof (cases "nat k < 10")
  case True
  with assms show ?thesis
    by (simp add: zeroFill_def digits_of_1 digit_char_0)
next
  case False
  with assms show ?thesis
    by (simp add: zeroFill_def digits_of_2)
qed

lemma zeroFill_4:
  assumes "0 \<le> k" "k < 10000"
  shows "zeroFill k 4 = [digit_char (nat k div 1000), digit_char (nat k div 100 mod 10),
                         digit_char (nat k div 10 mod 10), digit_char (nat k mod 10)]"
proof -
  consider "nat k < 10" | "10 \<le> nat k" "nat k < 100" | "100 \<le> nat k" "nat k < 1000"
    | "1000 \<le> nat k" "nat k < 10000"
    using assms by linarith
  then show ?thesis
  proof cases
    case 1
    with assms show ?thesis by (simp add: zeroFill_def digits_of_1 digit_char_0 replicate_3)
  next
    case 2
    with assms show ?thesis by (simp add: zeroFill_def digits_of_2 digit_char_0 replicate_2)
  next
    case 3
    with assms show ?thesis by (simp add: zeroFill_def digits_of_3 digit_char_0)
  next
    case 4
    with assms show ?thesis by (simp add: zeroFill_def digits_of_4)
  qed
qed

lemma list16: "length s = 16 \<Longrightarrow>
  s = [s ! 0, s ! 1, s ! 2, s ! 3, s ! 4, s ! 5, s ! 6, s ! 7, s ! 8, s ! 9, s ! 10, s ! 11,
       s ! 12, s ! 13, s ! 14, s ! 15]"
  by (rule nth_equalityI) (auto simp add: less_Suc_eq numeral_eq_Suc)

lemma format_fields_chars:
  assumes "0 \<le> M" "M < 100" "0 \<le> D" "D < 100" "0 \<le> Y" "Y < 10000"
    "0 \<le> H" "H < 100" "0 \<le> mi" "mi < 100"
  shows "format_fields M D Y H mi =
    [digit_char (nat M div 10), digit_char (nat M mod 10), CHR ''-'',
     digit_char (nat D div 10), digit_char (nat D mod 10), CHR ''-'',
     digit_char (nat Y div 1000), digit_char (nat Y div 100 mod 10),
     digit_char (nat Y div 10 mod 10), digit_char (nat Y mod 10), CHR '' '',
     digit_char (nat H div 10), digit_char (nat H mod 10), CHR '':'',
     digit_char (nat mi div 10), digit_char (nat mi mod 10)]"
  using assms by (simp add: format_fields_def zeroFill_2 zeroFill_4)

lemma two_digit_value:
  assumes "0 \<le> k" "k < 100"
  shows "int (10 * digit_val (digit_char (nat k div 10)) + digit_val (digit_char (nat k mod 10))) = k"
proof -
  from assms have "nat k div 10 < 10" by simp
  then show ?thesis using assms by (simp add: digit_val_char)
qed

lemma four_digit_value:
  assumes "0 \<le> k" "k < 10000"
  shows "int (1000 * digit_val (digit_char (nat k div 1000)) +
              100 * digit_val (digit_char (nat k div 100 mod 10)) +
              10 * digit_val (digit_char (nat k div 10 mod 10)) +
              digit_val (digit_char (nat k mod 10))) = k"
proof -
  define n where "n = nat k"
  from assms have n: "n < 10000" "int n = k" by (simp_all add: n_def)
  then have "n div 1000 < 10" by simp
  moreover have "n = 1000 * (n div 1000) + 100 * (n div 100 mod 10) + 10 * (n div 10 mod 10) + n mod 10"
  proof -
    have "n div 100 div 10 = n div 1000" "n div 10 div 10 = n div 100"
      by (simp_all add: div_mult2_eq [symmetric])
    moreover have "n div 100 = 10 * (n div 100 div 10) + n div 100 mod 10"
      "n div 10 = 10 * (n div 10 div 10) + n div 10 mod 10"
      by simp_all
    moreover have "n = 10 * (n div 10) + n mod 10" by simp
    ultimately show ?thesis by linarith
  qed
  ultimately show ?thesis
    using n(2) by (simp add: digit_val_char n_def [symmetric])
qed

lemma format_fields_fields:
  assumes "0 \<le> M" "M < 100" "0 \<le> D" "D < 100" "0 \<le> Y" "Y < 10000"
    "0 \<le> H" "H < 100" "0 \<le> mi" "mi < 100"
  defines "s \<equiv> format_fields M D Y H mi"
  shows "fixed_shape s" "two_digits s 0 = M" "two_digits s 3 = D" "four_digits s 6 = Y"
    "two_digits s 11 = H" "two_digits s 14 = mi"
proof -
  note s = format_fields_chars [OF assms(1-10), folded s_def]
  have lt: "nat k div 10 < 10" "nat k mod 10 < 10" if "k < 100" for k :: int
    using that by simp_all
  have lt4: "nat k div 1000 < 10" if "k < 10000" for k :: int
    using that by simp
  show "fixed_shape s"
    unfolding s fixed_shape_def using assms(1-10)
    by (simp add: is_digit_char lt lt4)
  show "two_digits s 0 = M" "two_digits s 3 = D" "two_digits s 11 = H" "two_digits s 14 = mi"
    unfolding s two_digits_def
    using two_digit_value [OF assms(1,2)] two_digit_value [OF assms(3,4)]
      two_digit_value [OF assms(7,8)] two_digit_value [OF assms(9,10)]
    by simp_all
  show "four_digits s 6 = Y"
    unfolding s four_digits_def using four_digit_value [OF assms(5,6)] by simp
qed

lemma divmod10:
  fixes k r :: nat
  assumes "r < 10"
  shows "(10 * k + r) div 10 = k" "(10 * k + r) mod 10 = r"
  using assms by simp_all

lemma nat_two_digits: "nat (two_digits s i) = 10 * digit_val (s ! i) + digit_val (s ! (i + 1))"
  unfolding two_digits_def nat_int ..

lemma nat_four_digits:
  "nat (four_digits s i) = 1000 * digit_val (s ! i) + 100 * digit_val (s ! (i + 1)) +
     10 * digit_val (s ! (i + 2)) + digit_val (s ! (i + 3))"
  unfolding four_digits_def nat_int ..

lemma digit_quad:
  fixes a b c d :: nat
  assumes "a < 10" "b < 10" "c < 10" "d < 10"
  defines "n \<equiv> 1000 * a + 100 * b + 10 * c + d"
  shows "n div 1000 = a" "n div 100 mod 10 = b" "n div 10 mod 10 = c" "n mod 10 = d"
proof -
  show "n div 1000 = a" using assms(1-4) unfolding n_def by simp
  have "n div 100 = 10 * a + b" using assms(1-4) unfolding n_def by simp
  then show "n div 100 mod 10 = b" using divmod10 (2) [OF assms(2), of a] by simp
  have "n div 10 = 10 * (10 * a + b) + c" using assms(1-4) unfolding n_def by simp
  then show "n div 10 mod 10 = c" using divmod10 (2) [OF assms(3), of "10 * a + b"] by simp
  show "n mod 10 = d" using divmod10 (2) [OF assms(4), of "100 * a + 10 * b + c"]
    unfolding n_def by simp
qed

lemma format_fields_inverse:
  assumes "fixed_shape s"
  shows "format_fields (two_digits s 0) (two_digits s 3) (four_digits s 6)
           (two_digits s 11) (two_digits s 14) = s"
proof -
  from assms have len: "length s = 16"
    and dig: "is_digit (s ! 0)" "is_digit (s ! 1)" "is_digit (s ! 3)" "is_digit (s ! 4)"
      "is_digit (s ! 6)" "is_digit (s ! 7)" "is_digit (s ! 8)" "is_digit (s ! 9)"
      "is_digit (s ! 11)" "is_digit (s ! 12)" "is_digit (s ! 14)" "is_digit (s ! 15)"
    and sep: "s ! 2 = CHR ''-''" "s ! 5 = CHR ''-''" "s ! 10 = CHR '' ''" "s ! 13 = CHR '':''"
    by (simp_all add: fixed_shape_def)
  note lt = dig [THEN digit_val_less]
  have two: "0 \<le> two_digits s i" "two_digits s i < 100"
    if "digit_val (s ! i) < 10" "digit_val (s ! (i + 1)) < 10" for i
    using that by (simp_all add: two_digits_def)
  have four: "0 \<le> four_digits s 6" "four_digits s 6 < 10000"
    using lt(5-8) by (simp_all add: four_digits_def)
  have "format_fields (two_digits s 0) (two_digits s 3) (four_digits s 6)
           (two_digits s 11) (two_digits s 14) =
        [s ! 0, s ! 1, s ! 2, s ! 3, s ! 4, s ! 5, s ! 6, s ! 7, s ! 8, s ! 9, s ! 10, s ! 11,
         s ! 12, s ! 13, s ! 14, s ! 15]"
    using lt dig sep
    by (subst format_fields_chars)
      (simp_all add: two four nat_two_digits nat_four_digits divmod10 digit_quad digit_char_val)
  with list16 [OF len] show ?thesis by simp
qed

lemma days_in_month_le_31: "days_in_month y m \<le> 31"
  by (simp add: days_in_month_def)

lemma render_utc_instant:
  assumes "utc_instant s = Some t"
  shows "render t = s"
proof -
  define M where "M = two_digits s 0"
  define D where "D = two_digits s 3"
  define Y where "Y = four_digits s 6"
  define H where "H = two_digits s 11"
  define mi where "mi = two_digits s 14"
  from assms have ff: "fixed_format s"
    by (simp add: utc_instant_def split: if_splits)
  then have shape: "fixed_shape s" and valid: "valid_date Y M D" and H: "H \<le> 23" and mi: "mi \<le> 59"
    by (simp_all add: fixed_format_def Let_def valid_date_def M_def D_def Y_def H_def mi_def)
  have nonneg: "0 \<le> H" "0 \<le> mi"
    by (simp_all add: H_def mi_def two_digits_def)
  from assms ff have t: "t = 86400000 * days_from_civil Y M D + (3600000 * H + 60000 * mi)"
    by (simp add: utc_instant_def M_def D_def Y_def H_def mi_def)
  have days: "t div 86400000 = days_from_civil Y M D"
    using H mi nonneg unfolding t by (intro div_eqI) simp_all
  have ms: "t mod 86400000 = 3600000 * H + 60000 * mi"
    using H mi nonneg mod_eqI [of 86400000 "days_from_civil Y M D" t] unfolding t by simp
  have hour: "(3600000 * H + 60000 * mi) div 3600000 = H"
    using mi nonneg by (intro div_eqI) simp_all
  have "(3600000 * H + 60000 * mi) mod 3600000 = 60000 * mi"
    using mi nonneg mod_eqI [of 3600000 H "3600000 * H + 60000 * mi"] by simp
  then have minute: "(3600000 * H + 60000 * mi) mod 3600000 div 60000 = mi"
    "60000 * mi mod 3600000 div 60000 = mi"
    using mi nonneg by simp_all
  have "render t = format_fields M D Y H mi"
    by (simp add: render_def Let_def days ms hour minute civil_from_days_inverse [OF valid])
  with format_fields_inverse [OF shape] show ?thesis
    by (simp add: M_def D_def Y_def H_def mi_def)
qed

lemma utc_instant_render:
  assumes "four_digit_year u"
  shows "utc_instant (render u) = Some (u - u mod 60000)"
proof -
  define days where "days = u div 86400000"
  define ms where "ms = u mod 86400000"
  define H where "H = ms div 3600000"
  define ms2 where "ms2 = ms mod 3600000"
  define mi where "mi = ms2 div 60000"
  define ms3 where "ms3 = ms2 mod 60000"
  obtain Y M D where ymd: "civil_from_days days = (Y, M, D)"
    by (cases "civil_from_days days") blast
  from days_from_civil_inverse [OF ymd]
  have valid: "valid_date Y M D" and dfc: "days_from_civil Y M D = days" by simp_all
  have u: "u = 86400000 * days + ms" "0 \<le> ms" "ms < 86400000"
    by (simp_all add: days_def ms_def)
  have ms: "ms = 3600000 * H + ms2" "0 \<le> ms2" "ms2 < 3600000"
    by (simp_all add: H_def ms2_def)
  have ms2: "ms2 = 60000 * mi + ms3" "0 \<le> ms3" "ms3 < 60000"
    by (simp_all add: mi_def ms3_def)
  have H: "0 \<le> H" "H \<le> 23" using u ms by simp_all
  have mi: "0 \<le> mi" "mi \<le> 59" using ms ms2 by simp_all
  from assms u have "- 719528 \<le> days" "days < 2932897"
    by (simp_all add: four_digit_year_def)
  from year_range [OF valid, unfolded dfc, OF this] have Y: "0 \<le> Y" "Y \<le> 9999" .
  from valid have MD: "1 \<le> M" "M \<le> 12" "1 \<le> D" "D \<le> days_in_month Y M"
    by (simp_all add: valid_date_def)
  from MD(4) days_in_month_le_31 [of Y M] have D31: "D \<le> 31" by linarith
  have r: "render u = format_fields M D Y H mi"
    by (simp add: render_def Let_def ymd days_def [symmetric] ms_def [symmetric]
        H_def [symmetric] ms2_def [symmetric] mi_def [symmetric])
  have b: "0 \<le> M" "M < 100" "0 \<le> D" "D < 100" "0 \<le> Y" "Y < 10000"
    "0 \<le> H" "H < 100" "0 \<le> mi" "mi < 100"
    using MD D31 Y H mi by simp_all
  note f = format_fields_fields [OF b, folded r]
  have ff: "fixed_format (render u)"
    using f valid H mi by (simp add: fixed_format_def Let_def)
  have "u mod 60000 = ms3"
    using ms2(2,3) int_mod_pos_eq [of u 60000 "1440 * days + 60 * H + mi" ms3]
    by (simp add: u(1) ms(1) ms2(1))
  then have "u - u mod 60000 = ((days * 24 + H) * 60 + mi) * 60000"
    by (simp add: u(1) ms(1) ms2(1))
  with ff f dfc show ?thesis
    by (simp add: utc_instant_def)
qed

section \<open>The claims\<close>

subsection \<open>Banner state\<close>

text \<open>
  Against claim C1, which asks that after every create, delete and sync the two banners
  equal the function of the row count. On the page served without rows, after the page
  has loaded, one row has been created and that row has been synced, there is exactly
  one row and the edit/sync banner is hidden. On the page served with two rows, after
  the page has loaded and one row has been deleted, there is exactly one row and the
  edit/sync banner is hidden.
\<close>

theorem banner_state_counterexample:
  "banner_state (step (moment_fixed UTC) (SyncSuccess 0 sync_answer)
      (step (moment_fixed UTC) (CreateSuccess create_abc123)
        (index_ready (moment_fixed UTC) empty_page)))
   \<noteq> spec_banner_state (rowCount (step (moment_fixed UTC) (SyncSuccess 0 sync_answer)
      (step (moment_fixed UTC) (CreateSuccess create_abc123)
        (index_ready (moment_fixed UTC) empty_page)))) \<and>
   banner_state (step (moment_fixed UTC) (DeleteSuccess 0)
      (index_ready (moment_fixed UTC) two_row_page))
   \<noteq> spec_banner_state (rowCount (step (moment_fixed UTC) (DeleteSuccess 0)
      (index_ready (moment_fixed UTC) two_row_page)))"
  by (simp add: banner_state_def spec_banner_state_def rowCount_def
      syncSheetOnClick_success_fields createOnClick_success_fields
      deleteSheetOnClick_success_fields displayed_index_ready
      create_abc123_def two_row_page_def empty_page_def)

text \<open>
  Claim C1, amended. The add banner is a function of the row count at every point a page
  reaches when every create answer holds one row: it is shown exactly when the table has
  no row. The edit/sync banner is set from the row count by a successful create only,
  after which both banners are the function of the row count that the spec gives; page
  load and a successful delete leave it as it was, and a successful sync hides it.
\<close>

theorem banner_updates:
  "(reachable one_row_answers lib s \<longrightarrow> notification_add s = (rowCount s = 0)) \<and>
   (one_row_answers (CreateSuccess dat) \<longrightarrow>
      banner_state (createOnClick_success lib dat s) =
        spec_banner_state (rowCount (createOnClick_success lib dat s))) \<and>
   notification_edit_sync (index_ready lib s) = notification_edit_sync s \<and>
   notification_edit_sync (deleteSheetOnClick_success row s) = notification_edit_sync s \<and>
   notification_edit_sync (syncSheetOnClick_success lib row sdat s) = False"
proof -
  have "notification_add s = (rowCount s = 0)" if "reachable one_row_answers lib s"
    using reachable_add_banner [OF that] reachable_no_row [OF that]
    by (auto simp add: rowCount_def)
  then show ?thesis
    by (simp add: rowCount_def banner_state_def spec_banner_state_def
        createOnClick_success_fields displayed_index_ready deleteSheetOnClick_success_fields
        syncSheetOnClick_success_fields)
qed

theorem banner_updates_witness:
  "reachable one_row_answers (moment_fixed UTC) (index_ready (moment_fixed UTC) empty_page) \<and>
   notification_add (index_ready (moment_fixed UTC) empty_page) \<and>
   one_row_answers (CreateSuccess create_abc123) \<and>
   banner_state (createOnClick_success (moment_fixed UTC) create_abc123
     (index_ready (moment_fixed UTC) empty_page)) = (False, True)"
  using banner_updates [of "moment_fixed UTC" "index_ready (moment_fixed UTC) empty_page" create_abc123]
    reachable.loaded [OF initial_empty_page, of one_row_answers "moment_fixed UTC"]
  by (simp add: create_abc123_def spec_banner_state_def rowCount_def
      createOnClick_success_fields displayed_index_ready empty_page_def)

subsection \<open>Delete\<close>

text \<open>
  Claim C2. After a successful delete, at any point a page reaches by whatever events,
  the clicked row is no longer in the table, the other rows are there in their order
  (the table has one row less when the clicked row was in it), and the add banner is
  shown if and only if no row remains.
\<close>

theorem delete_success:
  assumes "reachable allowed lib s"
  shows "table (deleteSheetOnClick_success row s) = removeAll row (table s) \<and>
         row \<notin> set (table (deleteSheetOnClick_success row s)) \<and>
         (row \<in> set (table s) \<longrightarrow> rowCount (deleteSheetOnClick_success row s) + 1 = rowCount s) \<and>
         notification_add (deleteSheetOnClick_success row s) =
           (rowCount (deleteSheetOnClick_success row s) = 0)"
proof -
  from reachable_table [OF assms] have "distinct (table s)" by simp
  then have "row \<in> set (table s) \<Longrightarrow> length (removeAll row (table s)) + 1 = length (table s)"
    by (rule length_removeAll_distinct)
  moreover have "notification_add s \<Longrightarrow> table s = []"
    by (rule reachable_add_banner [OF assms])
  ultimately show ?thesis
    by (auto simp add: deleteSheetOnClick_success_fields rowCount_def)
qed

theorem delete_success_witness:
  "reachable any_event (moment_fixed UTC) (index_ready (moment_fixed UTC) two_row_page) \<and>
   table (deleteSheetOnClick_success 0 (index_ready (moment_fixed UTC) two_row_page)) = [1] \<and>
   \<not> notification_add (deleteSheetOnClick_success 0 (index_ready (moment_fixed UTC) two_row_page)) \<and>
   reachable any_event (moment_fixed UTC)
     (step (moment_fixed UTC) (DeleteSuccess 0) (index_ready (moment_fixed UTC) two_row_page)) \<and>
   table (deleteSheetOnClick_success 1
     (step (moment_fixed UTC) (DeleteSuccess 0) (index_ready (moment_fixed UTC) two_row_page))) = [] \<and>
   notification_add (deleteSheetOnClick_success 1
     (step (moment_fixed UTC) (DeleteSuccess 0) (index_ready (moment_fixed UTC) two_row_page)))"
proof -
  let ?s = "index_ready (moment_fixed UTC) two_row_page"
  have r: "reachable any_event (moment_fixed UTC) ?s"
    by (rule reachable.loaded [OF initial_two_row_page])
  have r': "reachable any_event (moment_fixed UTC) (step (moment_fixed UTC) (DeleteSuccess 0) ?s)"
    by (rule reachable.stepped [OF r]) (simp add: any_event_def)
  show ?thesis
    using r r' delete_success [OF r, of 0] delete_success [OF r', of 1]
    by (simp add: deleteSheetOnClick_success_fields displayed_index_ready rowCount_def
        two_row_page_def empty_page_def)
qed

subsection \<open>Create\<close>

text \<open>
  Claim C3. When the answer to a create request holds the markup of one row, the success
  callback appends that one row at the end of the table and changes no row that was
  there. The timestamp of the new row is the text of the markup put through the two
  library calls at the format \<^verbatim>\<open>MM-DD-YYYY HH:mm\<close>, read as UTC and written in local
  time: for a viewer in a zone, a text of the fixed format that reads as the instant
  \<open>t\<close> becomes the local time \<open>t + zone t\<close> written in that format. The new row has
  one handler on each of its three controls; the add banner is hidden, and the edit/sync
  banner is shown if and only if the table then has exactly one row. On a page reached by
  whatever events the row appended was not in the table before.
\<close>

theorem create_success:
  assumes "row_to_insert dat = [m]"
  shows "createOnClick_success lib dat s =
           s\<lparr>heap := heap s @
                [\<lparr>ssheet_id = ssheet_id m, sheet_title = sheet_title m,
                  utc_datetime =
                    moment_format lib
                      (moment_utc_toDate lib (utc_datetime m) ''MM-DD-YYYY HH:mm'')
                      ''MM-DD-YYYY HH:mm'',
                  visit_sheet = 1, sync_sheet = 1, delete_sheet = 1\<rparr>],
              table := table s @ [length (heap s)],
              notification_edit_sync := (rowCount s = 0),
              notification_add := False\<rparr> \<and>
         (utc_instant (utc_datetime m) = Some t \<longrightarrow>
            utc_datetime (heap (createOnClick_success (moment_fixed zone) dat s) ! length (heap s)) =
              render (t + zone t)) \<and>
         rowCount (createOnClick_success lib dat s) = rowCount s + 1 \<and>
         notification_edit_sync (createOnClick_success lib dat s) =
           (rowCount (createOnClick_success lib dat s) = 1) \<and>
         (reachable allowed lib s \<longrightarrow> length (heap s) \<notin> set (table s))"
proof -
  have new: "createOnClick_success l dat s =
           s\<lparr>heap := heap s @
                [\<lparr>ssheet_id = ssheet_id m, sheet_title = sheet_title m,
                  utc_datetime =
                    moment_format l
                      (moment_utc_toDate l (utc_datetime m) ''MM-DD-YYYY HH:mm'')
                      ''MM-DD-YYYY HH:mm'',
                  visit_sheet = 1, sync_sheet = 1, delete_sheet = 1\<rparr>],
              table := table s @ [length (heap s)],
              notification_edit_sync := (rowCount s = 0),
              notification_add := False\<rparr>" for l :: "'e moment"
    using assms
    by (simp add: createOnClick_success_def Let_def each_row_new length_each_row
        wireRowClickHandlers_def processNotificationsOnCreate_def rowCount_def
        text_utc_datetime_def click_handlers_def parse_row_def updateDateTimes_def
        convertToLocalDateTime_def)
  have "utc_datetime (heap (createOnClick_success (moment_fixed zone) dat s) ! length (heap s)) =
      render (t + zone t)" if "utc_instant (utc_datetime m) = Some t"
    using that by (simp add: new moment_fixed_def)
  moreover have "length (heap s) \<notin> set (table s)" if "reachable allowed lib s"
    using reachable_table [OF that] by auto
  ultimately show ?thesis
    by (simp add: new rowCount_def)
qed

theorem create_success_witness:
  "row_to_insert create_abc123 = [abc123] \<and>
   utc_instant (utc_datetime abc123) = Some 1704189600000 \<and>
   utc_datetime (heap (createOnClick_success (moment_fixed UTC_plus_0530) create_abc123 two_row_page) ! 2) =
     ''01-02-2024 15:30'' \<and>
   sync_sheet (heap (createOnClick_success (moment_fixed UTC_plus_0530) create_abc123 two_row_page) ! 2) = 1 \<and>
   table (createOnClick_success (moment_fixed UTC_plus_0530) create_abc123 two_row_page) = [0, 1, 2] \<and>
   take 2 (heap (createOnClick_success (moment_fixed UTC_plus_0530) create_abc123 two_row_page)) =
     heap two_row_page \<and>
   \<not> notification_add (createOnClick_success (moment_fixed UTC_plus_0530) create_abc123 two_row_page) \<and>
   \<not> notification_edit_sync
       (createOnClick_success (moment_fixed UTC_plus_0530) create_abc123 two_row_page) \<and>
   notification_edit_sync (createOnClick_success (moment_fixed UTC_plus_0530) create_abc123 empty_page)"
proof -
  let ?lib = "moment_fixed UTC_plus_0530"
  have h: "row_to_insert create_abc123 = [abc123]"
    by (simp add: create_abc123_def)
  have t: "utc_instant (utc_datetime abc123) = Some 1704189600000"
    unfolding abc123_def by code_simp
  have r: "render (1704189600000 + UTC_plus_0530 1704189600000) = ''01-02-2024 15:30''"
    by code_simp
  have len: "length (heap two_row_page) = 2"
    by (simp add: two_row_page_def empty_page_def)
  note two = create_success [OF h, of ?lib two_row_page 1704189600000 UTC_plus_0530 any_event]
  note none = create_success [OF h, of ?lib empty_page 1704189600000 UTC_plus_0530 any_event]
  from two t have "utc_datetime (heap (createOnClick_success ?lib create_abc123 two_row_page) !
      length (heap two_row_page)) = render (1704189600000 + UTC_plus_0530 1704189600000)"
    by blast
  then have stamp: "utc_datetime (heap (createOnClick_success ?lib create_abc123 two_row_page) ! 2) =
      ''01-02-2024 15:30''"
    by (simp only: len r)
  from two have eq: "createOnClick_success ?lib create_abc123 two_row_page =
      two_row_page\<lparr>heap := heap two_row_page @
                [\<lparr>ssheet_id = ssheet_id abc123, sheet_title = sheet_title abc123,
                  utc_datetime =
                    moment_format ?lib
                      (moment_utc_toDate ?lib (utc_datetime abc123) ''MM-DD-YYYY HH:mm'')
                      ''MM-DD-YYYY HH:mm'',
                  visit_sheet = 1, sync_sheet = 1, delete_sheet = 1\<rparr>],
              table := table two_row_page @ [length (heap two_row_page)],
              notification_edit_sync := (rowCount two_row_page = 0),
              notification_add := False\<rparr>"
    by (rule conjunct1)
  have rest: "sync_sheet (heap (createOnClick_success ?lib create_abc123 two_row_page) ! 2) = 1 \<and>
      table (createOnClick_success ?lib create_abc123 two_row_page) = [0, 1, 2] \<and>
      take 2 (heap (createOnClick_success ?lib create_abc123 two_row_page)) = heap two_row_page \<and>
      \<not> notification_add (createOnClick_success ?lib create_abc123 two_row_page) \<and>
      \<not> notification_edit_sync (createOnClick_success ?lib create_abc123 two_row_page)"
    unfolding eq by (simp add: two_row_page_def empty_page_def rowCount_def)
  from none have "notification_edit_sync (createOnClick_success ?lib create_abc123 empty_page)"
    by (simp add: empty_page_def rowCount_def)
  with h t stamp rest show ?thesis by blast
qed

subsection \<open>Sync\<close>

text \<open>
  Claim C4. A successful sync sets the timestamp of the clicked row to the \<open>datetime\<close>
  of the answer put through the two library calls at the format
  \<^verbatim>\<open>MM-DD-YYYY HH:mm\<close>, read as UTC and written in local time: for a viewer in a zone,
  a \<open>datetime\<close> of the fixed format that reads as the instant \<open>t\<close> becomes the local
  time \<open>t + zone t\<close> written in that format. It sets the title of the row to the \<open>title\<close>
  of the answer when there is one; the title is unchanged otherwise, every other
  attribute of the row and every other row are unchanged, and so is the rest of the
  page, except that the edit/sync banner is hidden afterwards.
\<close>

theorem sync_success:
  "(row < length (heap s) \<longrightarrow>
      heap (syncSheetOnClick_success lib row dat s) ! row =
        (heap s ! row)\<lparr>utc_datetime :=
                          moment_format lib
                            (moment_utc_toDate lib (datetime dat) ''MM-DD-YYYY HH:mm'')
                            ''MM-DD-YYYY HH:mm'',
                        sheet_title := (case title dat of Some t \<Rightarrow> t
                                        | None \<Rightarrow> sheet_title (heap s ! row))\<rparr>) \<and>
   (row < length (heap s) \<and> utc_instant (datetime dat) = Some t \<longrightarrow>
      utc_datetime (heap (syncSheetOnClick_success (moment_fixed zone) row dat s) ! row) =
        render (t + zone t)) \<and>
   (\<forall>i. i \<noteq> row \<longrightarrow> heap (syncSheetOnClick_success lib row dat s) ! i = heap s ! i) \<and>
   length (heap (syncSheetOnClick_success lib row dat s)) = length (heap s) \<and>
   \<not> notification_edit_sync (syncSheetOnClick_success lib row dat s) \<and>
   (syncSheetOnClick_success lib row dat s)
     \<lparr>heap := heap s, notification_edit_sync := notification_edit_sync s\<rparr> = s"
proof -
  have cell: "heap (syncSheetOnClick_success l row dat s) ! row =
        (heap s ! row)\<lparr>utc_datetime :=
                          moment_format l
                            (moment_utc_toDate l (datetime dat) ''MM-DD-YYYY HH:mm'')
                            ''MM-DD-YYYY HH:mm'',
                        sheet_title := (case title dat of Some t \<Rightarrow> t
                                        | None \<Rightarrow> sheet_title (heap s ! row))\<rparr>"
    if "row < length (heap s)" for l :: "'e moment"
    using that
    by (simp add: syncSheetOnClick_success_def Let_def each_row_single
        processNotificationsOnSync_def text_utc_datetime_def convertToLocalDateTime_def
        split: option.splits)
  have "utc_datetime (heap (syncSheetOnClick_success (moment_fixed zone) row dat s) ! row) =
      render (t + zone t)" if "row < length (heap s)" "utc_instant (datetime dat) = Some t"
    using that(2) by (simp add: cell [OF that(1)] moment_fixed_def)
  moreover have "(\<forall>i. i \<noteq> row \<longrightarrow> heap (syncSheetOnClick_success lib row dat s) ! i = heap s ! i) \<and>
   length (heap (syncSheetOnClick_success lib row dat s)) = length (heap s) \<and>
   \<not> notification_edit_sync (syncSheetOnClick_success lib row dat s) \<and>
   (syncSheetOnClick_success lib row dat s)
     \<lparr>heap := heap s, notification_edit_sync := notification_edit_sync s\<rparr> = s"
    by (simp add: syncSheetOnClick_success_def Let_def each_row_single
        processNotificationsOnSync_def text_utc_datetime_def split: option.splits)
  ultimately show ?thesis
    by (simp add: cell)
qed

theorem sync_success_witness:
  "(0::nat) < length (heap two_row_page) \<and> (1::nat) \<noteq> 0 \<and>
   utc_instant (datetime sync_answer) = Some 1704189600000 \<and>
   utc_datetime (heap (syncSheetOnClick_success (moment_fixed UTC_plus_0530) 0 sync_answer two_row_page) ! 0) =
     ''01-02-2024 15:30'' \<and>
   sheet_title (heap (syncSheetOnClick_success (moment_fixed UTC_plus_0530) 0 sync_answer two_row_page) ! 0) =
     ''Stocks'' \<and>
   heap (syncSheetOnClick_success (moment_fixed UTC_plus_0530) 0 sync_answer two_row_page) ! 1 =
     parse_row xyz789 \<and>
   utc_instant (datetime sync_answer_titled) = Some 1704065400000 \<and>
   utc_datetime
     (heap (syncSheetOnClick_success (moment_fixed UTC_plus_0530) 1 sync_answer_titled two_row_page) ! 1) =
     ''01-01-2024 05:00'' \<and>
   sheet_title
     (heap (syncSheetOnClick_success (moment_fixed UTC_plus_0530) 1 sync_answer_titled two_row_page) ! 1) =
     ''Portfolio'' \<and>
   heap (syncSheetOnClick_success (moment_fixed UTC_plus_0530) 1 sync_answer_titled two_row_page) ! 0 =
     parse_row abc123"
proof -
  let ?lib = "moment_fixed UTC_plus_0530"
  have len: "(0::nat) < length (heap two_row_page)" "(1::nat) < length (heap two_row_page)"
    by (simp_all add: two_row_page_def empty_page_def)
  have t0: "utc_instant (datetime sync_answer) = Some 1704189600000"
    unfolding sync_answer_def by code_simp
  have r0: "render (1704189600000 + UTC_plus_0530 1704189600000) = ''01-02-2024 15:30''"
    by code_simp
  have t1: "utc_instant (datetime sync_answer_titled) = Some 1704065400000"
    unfolding sync_answer_titled_def by code_simp
  have r1: "render (1704065400000 + UTC_plus_0530 1704065400000) = ''01-01-2024 05:00''"
    by code_simp
  note first = sync_success [of 0 two_row_page ?lib sync_answer 1704189600000 UTC_plus_0530]
  note second = sync_success [of 1 two_row_page ?lib sync_answer_titled 1704065400000 UTC_plus_0530]
  from first len(1) t0
  have "utc_datetime (heap (syncSheetOnClick_success ?lib 0 sync_answer two_row_page) ! 0) =
      render (1704189600000 + UTC_plus_0530 1704189600000)"
    by blast
  then have stamp0: "utc_datetime (heap (syncSheetOnClick_success ?lib 0 sync_answer two_row_page) ! 0) =
      ''01-02-2024 15:30''"
    by (simp only: r0)
  from second len(2) t1
  have "utc_datetime (heap (syncSheetOnClick_success ?lib 1 sync_answer_titled two_row_page) ! 1) =
      render (1704065400000 + UTC_plus_0530 1704065400000)"
    by blast
  then have stamp1:
    "utc_datetime (heap (syncSheetOnClick_success ?lib 1 sync_answer_titled two_row_page) ! 1) =
      ''01-01-2024 05:00''"
    by (simp only: r1)
  from first len(1)
  have row0: "heap (syncSheetOnClick_success ?lib 0 sync_answer two_row_page) ! 0 =
      (heap two_row_page ! 0)\<lparr>utc_datetime :=
          moment_format ?lib (moment_utc_toDate ?lib (datetime sync_answer) ''MM-DD-YYYY HH:mm'')
            ''MM-DD-YYYY HH:mm'',
        sheet_title := (case title sync_answer of Some t \<Rightarrow> t
                        | None \<Rightarrow> sheet_title (heap two_row_page ! 0))\<rparr>"
    by blast
  have title0: "sheet_title (heap (syncSheetOnClick_success ?lib 0 sync_answer two_row_page) ! 0) =
      ''Stocks''"
    unfolding row0
    by (simp add: two_row_page_def empty_page_def sync_answer_def parse_row_def abc123_def)
  from second len(2)
  have row1: "heap (syncSheetOnClick_success ?lib 1 sync_answer_titled two_row_page) ! 1 =
      (heap two_row_page ! 1)\<lparr>utc_datetime :=
          moment_format ?lib
            (moment_utc_toDate ?lib (datetime sync_answer_titled) ''MM-DD-YYYY HH:mm'')
            ''MM-DD-YYYY HH:mm'',
        sheet_title := (case title sync_answer_titled of Some t \<Rightarrow> t
                        | None \<Rightarrow> sheet_title (heap two_row_page ! 1))\<rparr>"
    by blast
  have title1:
    "sheet_title (heap (syncSheetOnClick_success ?lib 1 sync_answer_titled two_row_page) ! 1) =
      ''Portfolio''"
    unfolding row1 by (simp add: sync_answer_titled_def)
  from first have "heap (syncSheetOnClick_success ?lib 0 sync_answer two_row_page) ! 1 =
      heap two_row_page ! 1"
    by simp
  then have other0: "heap (syncSheetOnClick_success ?lib 0 sync_answer two_row_page) ! 1 =
      parse_row xyz789"
    by (simp add: two_row_page_def empty_page_def)
  from second have "heap (syncSheetOnClick_success ?lib 1 sync_answer_titled two_row_page) ! 0 =
      heap two_row_page ! 0"
    by simp
  then have other1: "heap (syncSheetOnClick_success ?lib 1 sync_answer_titled two_row_page) ! 0 =
      parse_row abc123"
    by (simp add: two_row_page_def empty_page_def)
  from len(1) t0 stamp0 title0 other0 t1 stamp1 title1 other1 show ?thesis
    by simp
qed

subsection \<open>Errors\<close>

text \<open>
  Claim C5. The error mapping: 401 forces a reload and raises no alert; 403, 404 and 400
  raise one alert each, with the message for a sheet one may not modify, a sheet that
  was not found and a sheet that is formatted incorrectly; every other status code
  raises one alert with the generic message; no status code other than 401 reloads.
\<close>

theorem informUserOfSheetAccessError_mapping:
  "informUserOfSheetAccessError 401 s = s\<lparr>reloads := Suc (reloads s)\<rparr> \<and>
   informUserOfSheetAccessError 403 s =
     s\<lparr>alerts := alerts s @ [''You are not authorized to modify this sheet.'']\<rparr> \<and>
   informUserOfSheetAccessError 404 s = s\<lparr>alerts := alerts s @ [''Sheet was not found.'']\<rparr> \<and>
   informUserOfSheetAccessError 400 s =
     s\<lparr>alerts := alerts s @
       [''Sheet formatted incorrectly. Make sure there are no blank rows and the first row is a header.'']\<rparr> \<and>
   (statusCode \<notin> {400, 401, 403, 404} \<longrightarrow>
      informUserOfSheetAccessError statusCode s =
        s\<lparr>alerts := alerts s @ [''Could not perform operation.'']\<rparr>) \<and>
   (statusCode \<noteq> 401 \<longrightarrow>
      (\<exists>message. alerts (informUserOfSheetAccessError statusCode s) = alerts s @ [message]) \<and>
      reloads (informUserOfSheetAccessError statusCode s) = reloads s)"
  by (simp add: informUserOfSheetAccessError_def)

theorem informUserOfSheetAccessError_mapping_witness:
  "(999::nat) \<notin> {400, 401, 403, 404} \<and> (999::nat) \<noteq> 401 \<and>
   alerts (informUserOfSheetAccessError 999 empty_page) = [''Could not perform operation.''] \<and>
   reloads (informUserOfSheetAccessError 999 empty_page) = 0 \<and>
   alerts (informUserOfSheetAccessError 401 empty_page) = [] \<and>
   reloads (informUserOfSheetAccessError 401 empty_page) = 1"
  using informUserOfSheetAccessError_mapping [of empty_page 999]
  by (simp add: empty_page_def)

text \<open>
  Claim C6. When a create, sync or delete request fails with a status code other than
  401, the page shows what it showed before the click: the click only sends the request,
  and the error callback only raises one alert; the rows, their attributes, the table
  and both banners are as they were.
\<close>

theorem failure_leaves_page:
  assumes "xhr_status \<noteq> 401"
    and "c \<in> {ClickCreate, ClickSync row, ClickDelete row}"
    and "e \<in> {CreateError xhr_status, SyncError row xhr_status, DeleteError row xhr_status}"
  shows "displayed (step lib c s) = displayed s \<and>
         (\<exists>message. step lib e s = s\<lparr>alerts := alerts s @ [message]\<rparr>) \<and>
         displayed (step lib e (step lib c s)) = displayed s"
proof -
  have "\<exists>message. informUserOfSheetAccessError xhr_status s = s\<lparr>alerts := alerts s @ [message]\<rparr>"
    using assms(1) by (rule informUser_alert)
  then have "\<exists>message. step lib e s = s\<lparr>alerts := alerts s @ [message]\<rparr>"
    using assms(3)
    by (auto simp add: createOnClick_error_def syncSheetOnClick_error_def
        deleteSheetOnClick_error_def)
  moreover have "displayed (step lib c s) = displayed s"
    using assms(2) by (intro displayed_step_other) auto
  moreover have "displayed (step lib e (step lib c s)) = displayed (step lib c s)"
    using assms(3) by (intro displayed_step_other) auto
  ultimately show ?thesis by simp
qed

theorem failure_leaves_page_witness:
  "(404::nat) \<noteq> 401 \<and>
   ClickDelete 0 \<in> {ClickCreate, ClickSync 0, ClickDelete 0} \<and>
   DeleteError 0 404 \<in> {CreateError 404, SyncError 0 404, DeleteError 0 404} \<and>
   displayed (step (moment_fixed UTC) (DeleteError 0 404)
       (step (moment_fixed UTC) (ClickDelete 0) (index_ready (moment_fixed UTC) two_row_page)))
     = displayed (index_ready (moment_fixed UTC) two_row_page) \<and>
   alerts (step (moment_fixed UTC) (DeleteError 0 404) (index_ready (moment_fixed UTC) two_row_page)) =
     [''Sheet was not found.'']"
  using failure_leaves_page [of 404 "ClickDelete 0" 0 "DeleteError 0 404" "moment_fixed UTC"
      "index_ready (moment_fixed UTC) two_row_page"]
  by (simp add: deleteSheetOnClick_error_def informUserOfSheetAccessError_def
      index_ready_def processNotificationsOnLoadOnDelete_def wireRowClickHandlers_def
      rowCount_def two_row_page_def empty_page_def Let_def)

subsection \<open>Settings\<close>

text \<open>
  Claim C7. Submit sends exactly one POST to the settings URL whose body is the object
  with the member \<open>notify\<close> set to the state of the checkbox at the click, registers no
  callback on it, and sets the location to the index URL in the same handler, whatever
  becomes of the request; cancel sets the location to the index URL and sends nothing.
\<close>

theorem settings_submit_cancel:
  "posted (submitOnClick s) = posted s @
     [\<lparr>type = ''POST'', url = url_settings_post s,
       data = Some (JObject [(''notify'', JBool (notify s))]),
       contentType = Some ''application/json'', dataType = None, success_error = None\<rparr>] \<and>
   location (submitOnClick s) = url_index s \<and>
   posted (cancelOnClick s) = posted s \<and>
   location (cancelOnClick s) = url_index s"
  by (simp add: submitOnClick_def cancelOnClick_def Let_def)

theorem settings_submit_cancel_witness:
  "length (posted (submitOnClick settings_page)) = 1 \<and>
   data (hd (posted (submitOnClick settings_page))) = Some (JObject [(''notify'', JBool True)]) \<and>
   location (submitOnClick settings_page) = ''/'' \<and>
   posted (cancelOnClick settings_page) = [] \<and>
   location (cancelOnClick settings_page) = ''/''"
  using settings_submit_cancel [of settings_page]
  by (simp add: settings_page_def)

subsection \<open>Timestamps\<close>

text \<open>
  Claim C8. For a string \<open>s\<close> of the fixed format, read as the UTC instant \<open>t\<close>, the result
  is the local time \<open>t + zone t\<close> written in the fixed format: whenever the year of
  that local time has four digits, the result is again a string of the fixed format,
  with no mark of the zone, and read back it gives that local time to the minute. When
  the zone is UTC the result is \<open>s\<close> itself, so that converting twice gives \<open>s\<close> too.
\<close>

theorem convertToLocalDateTime_fixed_format:
  assumes "fixed_format s"
  shows "(\<exists>t. utc_instant s = Some t \<and>
            convertToLocalDateTime (moment_fixed zone) s = render (t + zone t) \<and>
            (four_digit_year (t + zone t) \<longrightarrow>
               fixed_format (convertToLocalDateTime (moment_fixed zone) s) \<and>
               utc_instant (convertToLocalDateTime (moment_fixed zone) s) =
                 Some (t + zone t - (t + zone t) mod 60000))) \<and>
         convertToLocalDateTime (moment_fixed UTC) s = s \<and>
         convertToLocalDateTime (moment_fixed UTC) (convertToLocalDateTime (moment_fixed UTC) s) = s"
proof -
  from assms obtain t where t: "utc_instant s = Some t"
    by (simp add: utc_instant_def)
  have conv: "convertToLocalDateTime (moment_fixed z) s = render (t + z t)" for z
    by (simp add: convertToLocalDateTime_def moment_fixed_def t)
  have again: "utc_instant (render (t + zone t)) = Some (t + zone t - (t + zone t) mod 60000)"
    if "four_digit_year (t + zone t)"
    using that by (rule utc_instant_render)
  then have "fixed_format (render (t + zone t))" if "four_digit_year (t + zone t)"
    using that by (simp add: utc_instant_def split: if_splits)
  moreover have "convertToLocalDateTime (moment_fixed UTC) s = s"
    using render_utc_instant [OF t] by (simp add: conv UTC_def)
  ultimately show ?thesis
    using t again by (simp add: conv)
qed

theorem convertToLocalDateTime_fixed_format_witness:
  "fixed_format ''12-31-2023 23:30'' \<and>
   utc_instant ''12-31-2023 23:30'' = Some 1704065400000 \<and>
   four_digit_year (1704065400000 + UTC_plus_0530 1704065400000) \<and>
   convertToLocalDateTime (moment_fixed UTC_plus_0530) ''12-31-2023 23:30'' = ''01-01-2024 05:00'' \<and>
   fixed_format (convertToLocalDateTime (moment_fixed UTC_plus_0530) ''12-31-2023 23:30'') \<and>
   convertToLocalDateTime (moment_fixed UTC) ''12-31-2023 23:30'' = ''12-31-2023 23:30'' \<and>
   convertToLocalDateTime (moment_fixed UTC) ''01-01-2024 05:00'' =
     convertToLocalDateTime (moment_fixed UTC_plus_0530) ''12-31-2023 23:30''"
proof -
  have f: "fixed_format ''12-31-2023 23:30''"
    by code_simp
  have t: "utc_instant ''12-31-2023 23:30'' = Some 1704065400000"
    by code_simp
  have y: "four_digit_year (1704065400000 + UTC_plus_0530 1704065400000)"
    by (simp add: four_digit_year_def UTC_plus_0530_def)
  have c: "convertToLocalDateTime (moment_fixed UTC_plus_0530) ''12-31-2023 23:30'' = ''01-01-2024 05:00''"
    by code_simp
  from convertToLocalDateTime_fixed_format [OF f, of UTC_plus_0530]
  obtain t' where t': "utc_instant ''12-31-2023 23:30'' = Some t'"
    and local: "four_digit_year (t' + UTC_plus_0530 t') \<longrightarrow>
      fixed_format (convertToLocalDateTime (moment_fixed UTC_plus_0530) ''12-31-2023 23:30'')"
    and utc: "convertToLocalDateTime (moment_fixed UTC) ''12-31-2023 23:30'' = ''12-31-2023 23:30''"
    by blast
  from t t' have "t' = 1704065400000" by simp
  with local y
  have "fixed_format (convertToLocalDateTime (moment_fixed UTC_plus_0530) ''12-31-2023 23:30'')"
    by blast
  moreover have "convertToLocalDateTime (moment_fixed UTC) ''01-01-2024 05:00'' = ''01-01-2024 05:00''"
    by code_simp
  ultimately show ?thesis using f t y c utc by simp
qed

subsection \<open>Banners after a delete\<close>

text \<open>
  Claim C9. A successful delete after which a row remains changes the visibility of
  neither banner. The routine that runs after a delete never hides the add banner, shows
  it only when it was shown or no row remains, and leaves the edit/sync banner alone.
\<close>

theorem delete_keeps_banners:
  "(1 \<le> rowCount (deleteSheetOnClick_success row s) \<longrightarrow>
      notification_add (deleteSheetOnClick_success row s) = notification_add s \<and>
      notification_edit_sync (deleteSheetOnClick_success row s) = notification_edit_sync s) \<and>
   (notification_add s \<longrightarrow> notification_add (processNotificationsOnLoadOnDelete s)) \<and>
   (notification_add (processNotificationsOnLoadOnDelete s) \<longrightarrow>
      notification_add s \<or> rowCount s = 0) \<and>
   notification_edit_sync (processNotificationsOnLoadOnDelete s) = notification_edit_sync s"
  by (auto simp add: deleteSheetOnClick_success_fields rowCount_def
      processNotificationsOnLoadOnDelete_def)

theorem delete_keeps_banners_witness:
  "1 \<le> rowCount (deleteSheetOnClick_success 0 (index_ready (moment_fixed UTC) two_row_page)) \<and>
   banner_state (deleteSheetOnClick_success 0 (index_ready (moment_fixed UTC) two_row_page)) =
     banner_state (index_ready (moment_fixed UTC) two_row_page)"
  using delete_keeps_banners [of 0 "index_ready (moment_fixed UTC) two_row_page"]
  by (simp add: banner_state_def rowCount_def deleteSheetOnClick_success_fields
      displayed_index_ready two_row_page_def empty_page_def)

subsection \<open>The edit/sync banner\<close>

text \<open>
  Claim C10. Page load leaves the edit/sync banner as it is. An event that finds it
  hidden and leaves it shown is a successful create after which the table has exactly
  one row; a successful create shows it exactly in that case, a successful sync hides
  it whatever the row count, and a successful delete leaves it as it is.
\<close>

theorem edit_sync_banner_shown_only_by_create:
  "notification_edit_sync (index_ready lib s) = notification_edit_sync s \<and>
   (\<not> notification_edit_sync s \<and> notification_edit_sync (step lib e s) \<longrightarrow>
      (\<exists>dat. e = CreateSuccess dat) \<and> rowCount (step lib e s) = 1) \<and>
   notification_edit_sync (step lib (CreateSuccess cdat) s) =
     (rowCount (step lib (CreateSuccess cdat) s) = 1) \<and>
   \<not> notification_edit_sync (step lib (SyncSuccess row sdat) s) \<and>
   notification_edit_sync (step lib (DeleteSuccess row) s) = notification_edit_sync s"
proof -
  have "(\<exists>dat. e = CreateSuccess dat) \<and> rowCount (step lib e s) = 1"
    if "\<not> notification_edit_sync s" "notification_edit_sync (step lib e s)"
  proof (cases e)
    case (CreateSuccess dat)
    with that show ?thesis by (simp add: createOnClick_success_fields)
  next
    case (SyncSuccess row dat)
    with that show ?thesis by (simp add: syncSheetOnClick_success_fields)
  next
    case (DeleteSuccess row)
    with that show ?thesis by (simp add: deleteSheetOnClick_success_fields)
  qed (use that displayed_step_other [of e lib s] in \<open>simp_all add: displayed_def\<close>)
  then show ?thesis
    by (simp add: displayed_index_ready createOnClick_success_fields
        syncSheetOnClick_success_fields deleteSheetOnClick_success_fields)
qed

theorem edit_sync_banner_shown_only_by_create_witness:
  "\<not> notification_edit_sync (index_ready (moment_fixed UTC) empty_page) \<and>
   notification_edit_sync
     (step (moment_fixed UTC) (CreateSuccess create_abc123) (index_ready (moment_fixed UTC) empty_page)) \<and>
   rowCount
     (step (moment_fixed UTC) (CreateSuccess create_abc123) (index_ready (moment_fixed UTC) empty_page)) = 1"
  using edit_sync_banner_shown_only_by_create
    [of "moment_fixed UTC" "index_ready (moment_fixed UTC) empty_page"
      "CreateSuccess create_abc123"]
  by (simp add: displayed_index_ready createOnClick_success_fields rowCount_def
      create_abc123_def empty_page_def)

end
